theory Spec2Isabelle
  imports Complex_Main "HOL-Library.Word" "HOL-Library.Log_Nat"
begin

section \<open>CanvasErgonomicPdfViewer: the render-session controller\<close>

text \<open>
  A shallow embedding of the class \<open>CanvasErgonomicPdfViewer\<close>. Conventions:
  \<^item> JavaScript numbers are mathematical reals; the non-finite values appear where the
    code tests for them (\<open>clampNumber\<close>), as \<open>NonFinite\<close>. The quotient and the product of
    the scroll anchor in \<open>applyScale\<close> are rounded to binary64 (\<open>toDouble\<close>), since the
    floor of the product depends on the rounding.
  \<^item> JavaScript strings are lists of 8-bit code units: this covers base64 text, data
    URIs and the binary strings that \<open>atob\<close> returns.
  \<^item> An async method is cut at its \<open>await\<close>s that wait for the PDF library or for an
    animation frame. Each piece between two such points is one function from the
    controller state to the new state and the tasks left pending. An \<open>await\<close> on a
    promise that is already settled (\<open>getPdfJs\<close>, a \<open>renderPageToCanvas\<close> that returned
    early) only yields to the microtask queue and is run in the same piece.
  \<^item> Layout values (\<open>clientWidth\<close>, \<open>scrollHeight\<close>, \<open>offsetTop\<close>, ...) are fields of the
    state that hold what the browser reports when the code reads them; assigning
    \<open>scrollTop\<close> stores the assigned value.
  \<^item> Toolbar cosmetics (fit-button text and width, toolbar visibility, panning) are left
    out: no operation below reads them.
\<close>

subsection \<open>Strings\<close>

text \<open>White space of \<open>String.prototype.trim\<close> and of the regular expression \<open>\s\<close>, among
  8-bit code units: TAB, LF, VT, FF, CR, SPACE, NBSP.\<close>

definition js_space :: "char \<Rightarrow> bool" where
  "js_space c = (of_char c \<in> {9, 10, 11, 12, 13, 32, 160 :: nat})"

definition trim :: "string \<Rightarrow> string" where
  "trim s = rev (dropWhile js_space (rev (dropWhile js_space s)))"

text \<open>\<open>s.indexOf(c)\<close>; \<open>None\<close> stands for \<open>-1\<close>.\<close>

fun indexOf :: "string \<Rightarrow> char \<Rightarrow> nat option" where
  "indexOf [] c = None"
| "indexOf (x # xs) c = (if x = c then Some 0 else map_option Suc (indexOf xs c))"

definition startsWith :: "string \<Rightarrow> string \<Rightarrow> bool" where
  "startsWith s p = (take (length p) s = p)"

definition digit_char :: "nat \<Rightarrow> char" where
  "digit_char d = char_of (48 + d)"

fun show_nat :: "nat \<Rightarrow> string" where
  "show_nat n = (if n < 10 then [digit_char n] else show_nat (n div 10) @ [digit_char (n mod 10)])"

declare show_nat.simps [simp del]

definition show_int :: "int \<Rightarrow> string" where
  "show_int i = (if i < 0 then CHR ''-'' # show_nat (nat (- i)) else show_nat (nat i))"

text \<open>\<open>Math.round\<close>: the nearest integer, halves upwards.\<close>

definition js_round :: "real \<Rightarrow> int" where
  "js_round x = \<lfloor>x + 1 / 2\<rfloor>"

subsection \<open>Exceptions\<close>

text \<open>A thrown value: whether it is an \<open>Error\<close> instance, its \<open>message\<close>, and \<open>String(e)\<close>.\<close>

datatype exn = Exn (is_error: bool) (message: string) (to_string: string)

text \<open>\<open>e instanceof Error ? (e.message || String(e)) : String(e)\<close>\<close>

definition errorMessage :: "exn \<Rightarrow> string" where
  "errorMessage e =
     (if is_error e then (if message e \<noteq> [] then message e else to_string e) else to_string e)"

subsection \<open>Base64\<close>

text \<open>\<open>window.atob\<close> is the browser's forgiving-base64 decoder (HTML standard): remove
  ASCII white space; if the length is a multiple of 4, remove one or two trailing \<open>=\<close>;
  fail if the length is 1 modulo 4 or a character is outside the alphabet; then read 6
  bits per character, emit a byte per 8 bits and drop the 2 or 4 bits left over.\<close>

type_synonym byte = "8 word"

definition ascii_whitespace :: "char \<Rightarrow> bool" where
  "ascii_whitespace c = (of_char c \<in> {9, 10, 12, 13, 32 :: nat})"

definition b64val :: "char \<Rightarrow> nat option" where
  "b64val c =
     (let k = (of_char c :: nat) in
      if 65 \<le> k \<and> k \<le> 90 then Some (k - 65)
      else if 97 \<le> k \<and> k \<le> 122 then Some (k - 97 + 26)
      else if 48 \<le> k \<and> k \<le> 57 then Some (k - 48 + 52)
      else if c = CHR ''+'' then Some 62
      else if c = CHR ''/'' then Some 63
      else None)"

fun sextets :: "string \<Rightarrow> nat list option" where
  "sextets [] = Some []"
| "sextets (c # cs) =
     (case b64val c of None \<Rightarrow> None
      | Some v \<Rightarrow> (case sextets cs of None \<Rightarrow> None | Some vs \<Rightarrow> Some (v # vs)))"

definition join4 :: "nat \<Rightarrow> nat \<Rightarrow> nat \<Rightarrow> nat \<Rightarrow> nat" where
  "join4 a b c d = ((a * 64 + b) * 64 + c) * 64 + d"

definition bytes3 :: "nat \<Rightarrow> nat list" where
  "bytes3 n = [n div 65536, n div 256 mod 256, n mod 256]"

definition bytes2 :: "nat \<Rightarrow> nat list" where
  "bytes2 n = [n div 256, n mod 256]"

fun decode_sextets :: "nat list \<Rightarrow> nat list" where
  "decode_sextets (a # b # c # d # r) = bytes3 (join4 a b c d) @ decode_sextets r"
| "decode_sextets [a, b, c] = bytes2 (join4 0 a b c div 4)"
| "decode_sextets [a, b] = [join4 0 0 a b div 16]"
| "decode_sextets _ = []"

definition strip_padding :: "string \<Rightarrow> string" where
  "strip_padding d =
     (if length d mod 4 = 0 then
        (case rev d of
           x # y # r \<Rightarrow> if x = CHR ''='' then (if y = CHR ''='' then rev r else rev (y # r)) else d
         | _ \<Rightarrow> d)
      else d)"

text \<open>The \<open>InvalidCharacterError\<close> DOMException that \<open>atob\<close> throws; the message text is
  the browser's.\<close>

definition atob_exn :: exn where
  "atob_exn = Exn True ''The string to be decoded is not correctly encoded.''
     ''InvalidCharacterError: The string to be decoded is not correctly encoded.''"

definition atob :: "string \<Rightarrow> exn + string" where
  "atob data =
     (let d = strip_padding (filter (\<lambda>c. \<not> ascii_whitespace c) data) in
      if length d mod 4 = 1 then Inl atob_exn
      else (case sextets d of
              None \<Rightarrow> Inl atob_exn
            | Some vs \<Rightarrow> Inr (map char_of (decode_sextets vs))))"

text \<open>\<open>dataUriToBytes\<close>: trim, drop a \<open>data:\<close> prefix up to the first comma, remove white
  space, decode, and copy the character codes into a \<open>Uint8Array\<close>.\<close>

definition dataUriToBytes :: "string \<Rightarrow> exn + byte list" where
  "dataUriToBytes input =
     (let s = trim input;
          s' = (case indexOf s CHR '','' of
                  Some comma \<Rightarrow> if startsWith s ''data:'' then drop (comma + 1) s else s
                | None \<Rightarrow> s);
          base64 = filter (\<lambda>c. \<not> js_space c) s'
      in case atob base64 of
           Inl e \<Rightarrow> Inl e
         | Inr binary \<Rightarrow> Inr (map (\<lambda>ch. of_nat (of_char ch)) binary))"

text \<open>The standard base64 encoding with padding (RFC 4648), the inverse that the
  round-trip property is stated against.\<close>

definition b64char :: "nat \<Rightarrow> char" where
  "b64char n =
     (if n < 26 then char_of (65 + n)
      else if n < 52 then char_of (97 + (n - 26))
      else if n < 62 then char_of (48 + (n - 52))
      else if n = 62 then CHR ''+'' else CHR ''/'')"

fun sextets_of :: "nat list \<Rightarrow> nat list" where
  "sextets_of (a # b # c # r) =
     [a div 4, (a mod 4) * 16 + b div 16, (b mod 16) * 4 + c div 64, c mod 64] @ sextets_of r"
| "sextets_of [a, b] = [a div 4, (a mod 4) * 16 + b div 16, (b mod 16) * 4]"
| "sextets_of [a] = [a div 4, (a mod 4) * 16]"
| "sextets_of [] = []"

definition base64_encode :: "byte list \<Rightarrow> string" where
  "base64_encode bs =
     map b64char (sextets_of (map unat bs))
       @ replicate ((3 - length bs mod 3) mod 3) CHR ''=''"

text \<open>\<open>bytes[i] ?? 0\<close> and the four-character signature.\<close>

definition byteAt :: "byte list \<Rightarrow> nat \<Rightarrow> byte" where
  "byteAt bytes i = (if i < length bytes then bytes ! i else 0)"

definition signature_of :: "byte list \<Rightarrow> string" where
  "signature_of bytes = map (\<lambda>i. char_of (unat (byteAt bytes i))) [0, 1, 2, 3]"

subsection \<open>Numbers, library objects and the controller state\<close>

text \<open>A number that may be non-finite (\<open>NaN\<close>, \<open>Infinity\<close>, \<open>-Infinity\<close>).\<close>

datatype number = Num real | NonFinite

text \<open>\<open>clampNumber\<close>: a non-finite value maps to \<open>min\<close>.\<close>

definition clampNumber :: "number \<Rightarrow> real \<Rightarrow> real \<Rightarrow> real" where
  "clampNumber v mn mx = (case v of NonFinite \<Rightarrow> mn | Num x \<Rightarrow> max mn (min mx x))"

text \<open>Rounding to binary64: round to nearest, ties to even, with 53 significant bits
  down to the exponent of the subnormal numbers; a result of magnitude \<open>2 ^ 1024\<close> or
  more is \<open>Infinity\<close>. \<open>ulpExponent x\<close> is the exponent of the spacing of the doubles
  around \<open>x\<close>.\<close>

definition roundHalfEven :: "real \<Rightarrow> int" where
  "roundHalfEven x =
     (let f = \<lfloor>x\<rfloor>; d = x - of_int f in
      if d < 1 / 2 then f else if 1 / 2 < d then f + 1 else if even f then f else f + 1)"

definition ulpExponent :: "real \<Rightarrow> int" where
  "ulpExponent x = max (- 1074) (bitlen \<lfloor>\<bar>x\<bar> * 2 ^ 1074\<rfloor> - 1127)"

definition toDouble :: "real \<Rightarrow> number" where
  "toDouble x =
     (let u = 2 powi ulpExponent x;
          p = of_int (roundHalfEven (\<bar>x\<bar> / u)) * u
      in if 2 ^ 1024 \<le> p then NonFinite else Num (if x < 0 then - p else p))"

text \<open>A page handle of the PDF library: the document it belongs to, its number and its
  size at scale 1. \<open>getViewport({scale})\<close> scales the size.\<close>

record page =
  page_doc :: nat
  page_no :: nat
  page_width :: real
  page_height :: real

definition getViewport :: "page \<Rightarrow> real \<Rightarrow> real \<times> real" where
  "getViewport p scale = (page_width p * scale, page_height p * scale)"

text \<open>A document handle: \<open>numPages\<close> is the length of the page list and \<open>getPage(i)\<close>
  resolves with its \<open>i\<close>-th page.\<close>

record pdf_doc =
  doc_id :: nat
  doc_pages :: "page list"

text \<open>A page wrapper with its canvas: bitmap size, CSS size, and the page and scale
  handed to \<open>page.render\<close>.\<close>

record canvas =
  cv_width :: int
  cv_height :: int
  cv_style_width :: "int option"
  cv_style_height :: "int option"
  cv_rendered :: "(page \<times> real) option"

definition new_canvas :: canvas where
  "new_canvas = \<lparr>cv_width = 300, cv_height = 150, cv_style_width = None,
     cv_style_height = None, cv_rendered = None\<rparr>"

text \<open>The controller. Arrays of pages are objects: \<open>pages\<close> is a reference into \<open>arrays\<close>,
  so that an iterator over an array still sees it after \<open>this.pages\<close> is reassigned.
  Wrappers and canvases are numbered; \<open>canvases\<close> holds their current content,
  \<open>pagesHost\<close> the children of the page container.\<close>

record viewer =
  renderToken :: nat
  doc :: "pdf_doc option"
  pages :: nat
  arrays :: "nat \<Rightarrow> page list"
  nextArray :: nat
  pageCanvases :: "nat list"
  pageWrappers :: "nat list"
  lastDataUri :: "string option"
  minZoom :: real
  maxZoom :: real
  zoomStep :: real
  currentScale :: real
  fitWidthScale :: real
  pagesHost :: "nat list"
  canvases :: "nat \<Rightarrow> canvas"
  nextElem :: nat
  pageLabel :: string
  zoomLabel :: string
  btnPrev_disabled :: bool
  btnNext_disabled :: bool
  overlay_shown :: bool
  errorBox_text :: string
  errorBox_shown :: bool
  scrollTop :: real
  scrollLeft :: real
  scrollHeight :: real
  scrollWidth :: real
  clientHeight :: real
  clientWidth :: real
  offsetTopOf :: "nat \<Rightarrow> real"
  devicePixelRatio :: real
  context2d :: bool

text \<open>\<open>this.pages\<close>, read through the reference.\<close>

definition thePages :: "viewer \<Rightarrow> page list" where
  "thePages st = arrays st (pages st)"

text \<open>\<open>this.pages = []\<close> allocates a new array.\<close>

definition newPages :: "viewer \<Rightarrow> viewer" where
  "newPages st = st\<lparr>pages := nextArray st, arrays := (arrays st)(nextArray st := []),
     nextArray := nextArray st + 1\<rparr>"

text \<open>The field initialisers and \<open>init\<close>; the layout values are the browser's.\<close>

definition initial :: viewer where
  "initial = \<lparr>renderToken = 0, doc = None, pages = 0, arrays = (\<lambda>_. []), nextArray = 1,
     pageCanvases = [], pageWrappers = [], lastDataUri = None,
     minZoom = 1 / 2, maxZoom = 3, zoomStep = 1 / 10, currentScale = 1, fitWidthScale = 1,
     pagesHost = [], canvases = (\<lambda>_. new_canvas), nextElem = 0,
     pageLabel = ''0 / 0'', zoomLabel = ''100%'',
     btnPrev_disabled = False, btnNext_disabled = False,
     overlay_shown = False, errorBox_text = [], errorBox_shown = False,
     scrollTop = 0, scrollLeft = 0, scrollHeight = 0, scrollWidth = 0,
     clientHeight = 0, clientWidth = 0, offsetTopOf = (\<lambda>_. 0),
     devicePixelRatio = 1, context2d = True\<rparr>"

subsection \<open>Synchronous operations\<close>

definition setLoading :: "bool \<Rightarrow> viewer \<Rightarrow> viewer" where
  "setLoading loading st = st\<lparr>overlay_shown := loading\<rparr>"

definition setError :: "string \<Rightarrow> viewer \<Rightarrow> viewer" where
  "setError msg st = st\<lparr>errorBox_text := msg, errorBox_shown := True\<rparr>"

definition clearError :: "viewer \<Rightarrow> viewer" where
  "clearError st = st\<lparr>errorBox_text := [], errorBox_shown := False\<rparr>"

definition clearDocument :: "viewer \<Rightarrow> viewer" where
  "clearDocument st =
     (newPages (st\<lparr>doc := None\<rparr>))\<lparr>pageCanvases := [], pageWrappers := [], pagesHost := [],
        pageLabel := ''0 / 0'', zoomLabel := ''100%''\<rparr>"

definition updateZoomUi :: "viewer \<Rightarrow> viewer" where
  "updateZoomUi st = st\<lparr>zoomLabel := show_int (js_round (currentScale st * 100)) @ ''%''\<rparr>"

text \<open>The loop of \<open>getCurrentPageIndex\<close>: \<open>bestDist\<close> starts at \<open>+Infinity\<close> (\<open>None\<close>).\<close>

fun closer :: "real \<Rightarrow> real option \<Rightarrow> bool" where
  "closer d None = True"
| "closer d (Some bestDist) = (d < bestDist)"

fun scanPages :: "real \<Rightarrow> real list \<Rightarrow> nat \<Rightarrow> nat \<Rightarrow> real option \<Rightarrow> nat" where
  "scanPages mid [] i best bestDist = best"
| "scanPages mid (y # ys) i best bestDist =
     (let d = \<bar>y - mid\<bar> in
      if closer d bestDist then scanPages mid ys (i + 1) i (Some d)
      else scanPages mid ys (i + 1) best bestDist)"

definition viewMid :: "viewer \<Rightarrow> real" where
  "viewMid st = scrollTop st + clientHeight st * (35 / 100)"

definition pageTopOffset :: "viewer \<Rightarrow> nat \<Rightarrow> real" where
  "pageTopOffset st i = offsetTopOf st (pageWrappers st ! i)"

definition getCurrentPageIndex :: "viewer \<Rightarrow> nat" where
  "getCurrentPageIndex st =
     (if pageWrappers st = [] then 0
      else scanPages (viewMid st) (map (offsetTopOf st) (pageWrappers st)) 0 0 None)"

definition updateNavUi :: "viewer \<Rightarrow> viewer" where
  "updateNavUi st =
     (let total = length (pageWrappers st) in
      if total = 0 then st\<lparr>pageLabel := ''0 / 0'', btnPrev_disabled := True, btnNext_disabled := True\<rparr>
      else let idx = getCurrentPageIndex st in
        st\<lparr>pageLabel := show_nat (idx + 1) @ '' / '' @ show_nat total,
           btnPrev_disabled := (idx \<le> 0),
           btnNext_disabled := (int idx \<ge> int total - 1)\<rparr>)"

text \<open>\<open>scrollToPage(index)\<close>: an index outside the array reads \<open>undefined\<close> and returns.\<close>

definition scrollToPage :: "int \<Rightarrow> viewer \<Rightarrow> viewer" where
  "scrollToPage index st =
     (if 0 \<le> index \<and> index < int (length (pageWrappers st))
      then st\<lparr>scrollTop := max 0 (offsetTopOf st (pageWrappers st ! nat index) - 8)\<rparr>
      else st)"

definition onPrevClick :: "viewer \<Rightarrow> viewer" where
  "onPrevClick st = scrollToPage (max 0 (int (getCurrentPageIndex st) - 1)) st"

definition onNextClick :: "viewer \<Rightarrow> viewer" where
  "onNextClick st =
     scrollToPage (min (int (length (pageWrappers st)) - 1) (int (getCurrentPageIndex st) + 1)) st"

definition computeFitWidthScale :: "viewer \<Rightarrow> viewer" where
  "computeFitWidthScale st =
     (if thePages st = [] then st\<lparr>fitWidthScale := 1\<rparr>
      else let hostWidth = clientWidth st;
               usable = max 200 (hostWidth - 24);
               first = hd (thePages st);
               vp1 = getViewport first 1;
               fit = usable / max 1 (fst vp1)
           in st\<lparr>fitWidthScale := clampNumber (Num fit) (minZoom st) (maxZoom st)\<rparr>)"

subsection \<open>Asynchronous operations\<close>

text \<open>Who awaits \<open>renderAllPages\<close>: the first or the second pass of a load, or \<open>applyScale\<close>
  with the scroll ratios it captured.\<close>

datatype caller = LoadPass1 | LoadPass2 | ApplyScale number number

text \<open>A suspended piece of code, with the locals it resumes with:
  \<^item> \<open>AwaitGetDocument token bytes\<close>: \<open>loadFromDataUri\<close> at \<open>await loadingTask.promise\<close>;
  \<^item> \<open>AwaitGetPage token doc i pageCount\<close>: \<open>loadFromDataUri\<close> at \<open>await doc.getPage(i)\<close>;
  \<^item> \<open>AwaitRender token caller array next\<close>: \<open>renderPageToCanvas\<close> at
    \<open>await renderTask.promise\<close>, inside the loop of \<open>renderAllPages\<close> whose iterator stands
    at index \<open>next\<close> of \<open>array\<close>;
  \<^item> \<open>AwaitFrames token\<close>: \<open>loadFromDataUri\<close> waiting for two animation frames;
  \<^item> \<open>RafRestore ratioTop ratioLeft\<close>: the animation-frame callback of \<open>applyScale\<close>;
  \<^item> \<open>RafInit\<close>: the animation-frame callback of \<open>init\<close>.\<close>

datatype task =
    AwaitGetDocument nat "byte list"
  | AwaitGetPage nat pdf_doc nat nat
  | AwaitRender nat caller nat nat
  | AwaitFrames nat
  | RafRestore number number
  | RafInit

text \<open>How the awaited promise settles.\<close>

datatype settle = Resolved | ResolvedDoc pdf_doc | Rejected exn

text \<open>\<open>renderPageToCanvas\<close> up to \<open>await renderTask.promise\<close>; the flag tells whether that
  point was reached.\<close>

definition renderPageToCanvas :: "page \<Rightarrow> nat \<Rightarrow> real \<Rightarrow> nat \<Rightarrow> viewer \<Rightarrow> viewer \<times> bool" where
  "renderPageToCanvas pg cid scale token st =
     (if token \<noteq> renderToken st then (st, False)
      else let viewport = getViewport pg scale;
               outputScale = (if devicePixelRatio st = 0 then 1 else devicePixelRatio st);
               w = \<lfloor>fst viewport * outputScale\<rfloor>;
               h = \<lfloor>snd viewport * outputScale\<rfloor>
           in if \<not> context2d st then (st, False)
              else (st\<lparr>canvases := (canvases st)(cid :=
                        \<lparr>cv_width = w, cv_height = h,
                         cv_style_width = Some \<lfloor>fst viewport\<rfloor>,
                         cv_style_height = Some \<lfloor>snd viewport\<rfloor>,
                         cv_rendered = Some (pg, scale)\<rparr>)\<rparr>, True))"

text \<open>The loop of \<open>renderAllPages\<close> over the pages that the iterator has not visited yet,
  until a render is awaited (\<open>Some next\<close>) or the method returns (\<open>None\<close>).\<close>

fun renderLoop :: "nat \<Rightarrow> page list \<Rightarrow> nat \<Rightarrow> viewer \<Rightarrow> viewer \<times> nat option" where
  "renderLoop token [] i st = (st, None)"
| "renderLoop token (pg # rest) i st =
     (if token \<noteq> renderToken st then (st, None)
      else let cid = nextElem st;
               st1 = st\<lparr>nextElem := cid + 1, canvases := (canvases st)(cid := new_canvas),
                        pagesHost := pagesHost st @ [cid],
                        pageWrappers := pageWrappers st @ [cid],
                        pageCanvases := pageCanvases st @ [cid]\<rparr>;
               r = renderPageToCanvas pg cid (currentScale st1) token st1
           in if snd r then (fst r, Some (i + 1)) else renderLoop token rest (i + 1) (fst r))"

text \<open>\<open>finally { if (token === this.renderToken) this.setLoading(false) }\<close>\<close>

definition finallyBlock :: "nat \<Rightarrow> viewer \<Rightarrow> viewer" where
  "finallyBlock token st = (if token = renderToken st then setLoading False st else st)"

text \<open>The \<open>catch\<close> block of \<open>loadFromDataUri\<close>, followed by its \<open>finally\<close>.\<close>

definition loadCatch :: "nat \<Rightarrow> exn \<Rightarrow> viewer \<Rightarrow> viewer" where
  "loadCatch token e st =
     (if token \<noteq> renderToken st then finallyBlock token st
      else finallyBlock token
             (setError (''Failed to load PDF: '' @ errorMessage e) (clearDocument st)))"

text \<open>The scroll restoration that \<open>applyScale\<close> defers to the next animation frame.
  \<open>floorProduct m r\<close> is \<open>Math.floor(m * r)\<close> for an extent \<open>m\<close> and a captured ratio \<open>r\<close>;
  assigning a non-finite value to \<open>scrollTop\<close> or \<open>scrollLeft\<close> stores 0.\<close>

definition floorProduct :: "real \<Rightarrow> number \<Rightarrow> number" where
  "floorProduct m r =
     (case r of
        NonFinite \<Rightarrow> NonFinite
      | Num x \<Rightarrow> (case toDouble (m * x) of
                   NonFinite \<Rightarrow> NonFinite
                 | Num p \<Rightarrow> Num (of_int \<lfloor>p\<rfloor>)))"

definition scrollValue :: "number \<Rightarrow> real" where
  "scrollValue v = (case v of NonFinite \<Rightarrow> 0 | Num p \<Rightarrow> p)"

definition restoreScroll :: "number \<Rightarrow> number \<Rightarrow> viewer \<Rightarrow> viewer" where
  "restoreScroll ratioTop ratioLeft st =
     (let maxTop = max 0 (scrollHeight st - clientHeight st);
          maxLeft = max 0 (scrollWidth st - clientWidth st)
      in st\<lparr>scrollTop := scrollValue (floorProduct maxTop ratioTop),
            scrollLeft := scrollValue (floorProduct maxLeft ratioLeft)\<rparr>)"

text \<open>What the caller does once \<open>await this.renderAllPages(token)\<close> returns.\<close>

definition afterRender :: "nat \<Rightarrow> caller \<Rightarrow> viewer \<Rightarrow> viewer \<times> task list" where
  "afterRender token c st =
     (if token \<noteq> renderToken st then (finallyBlock token st, [])
      else case c of
             LoadPass1 \<Rightarrow> (st, [AwaitFrames token])
           | LoadPass2 \<Rightarrow> (finallyBlock token (updateZoomUi (updateNavUi st)), [])
           | ApplyScale ratioTop ratioLeft \<Rightarrow>
               (finallyBlock token (updateZoomUi (updateNavUi st)), [RafRestore ratioTop ratioLeft]))"

text \<open>The loop of \<open>renderAllPages\<close> resumed at index \<open>i\<close> of the array it iterates.\<close>

definition continueRender :: "nat \<Rightarrow> caller \<Rightarrow> nat \<Rightarrow> nat \<Rightarrow> viewer \<Rightarrow> viewer \<times> task list" where
  "continueRender token c arr i st =
     (let r = renderLoop token (drop i (arrays st arr)) i st in
      case snd r of
        Some next \<Rightarrow> (fst r, [AwaitRender token c arr next])
      | None \<Rightarrow> afterRender token c (fst r))"

text \<open>\<open>await this.renderAllPages(token)\<close> from its first statement.\<close>

definition renderAllPages :: "nat \<Rightarrow> caller \<Rightarrow> viewer \<Rightarrow> viewer \<times> task list" where
  "renderAllPages token c st =
     (let st1 = st\<lparr>pagesHost := [], pageCanvases := [], pageWrappers := []\<rparr>
      in continueRender token c (pages st1) 0 st1)"

text \<open>The page-fetching loop of \<open>loadFromDataUri\<close> from the test \<open>i <= pageCount\<close>, and what
  follows the loop up to the first render.\<close>

definition loadPages :: "nat \<Rightarrow> pdf_doc \<Rightarrow> nat \<Rightarrow> nat \<Rightarrow> viewer \<Rightarrow> viewer \<times> task list" where
  "loadPages token d i pageCount st =
     (if i \<le> pageCount then
        (if token \<noteq> renderToken st then (finallyBlock token st, [])
         else (st, [AwaitGetPage token d i pageCount]))
      else renderAllPages token LoadPass1 (st\<lparr>currentScale := 1\<rparr>))"

text \<open>\<open>loadFromDataUri\<close> up to \<open>await loadingTask.promise\<close>.\<close>

definition loadFromDataUri :: "string \<Rightarrow> viewer \<Rightarrow> viewer \<times> task list" where
  "loadFromDataUri dataUri st =
     (let token = renderToken st + 1;
          st1 = clearError (st\<lparr>renderToken := token\<rparr>);
          raw = trim dataUri
      in if raw = [] \<or> length raw < 20 then (clearDocument st1, [])
         else let st2 = setLoading True st1 in
           case dataUriToBytes raw of
             Inl e \<Rightarrow> (loadCatch token e st2, [])
           | Inr bytes \<Rightarrow>
               let sig = signature_of bytes in
               if sig \<noteq> ''%PDF''
               then (finallyBlock token
                       (setError (''Not a PDF. Signature: '' @ sig) (clearDocument st2)), [])
               else if token \<noteq> renderToken st2 then (finallyBlock token st2, [])
               else (st2, [AwaitGetDocument token bytes]))"

text \<open>\<open>applyScale\<close> up to the first awaited render; its parameter is not read.\<close>

definition ratioTop :: "viewer \<Rightarrow> number" where
  "ratioTop st =
     (if scrollHeight st > clientHeight st
      then toDouble (scrollTop st / (scrollHeight st - clientHeight st)) else Num 0)"

definition ratioLeft :: "viewer \<Rightarrow> number" where
  "ratioLeft st =
     (if scrollWidth st > clientWidth st
      then toDouble (scrollLeft st / (scrollWidth st - clientWidth st)) else Num 0)"

definition applyScale :: "real \<Rightarrow> viewer \<Rightarrow> viewer \<times> task list" where
  "applyScale scale st =
     (if doc st = None \<or> thePages st = [] then (st, [])
      else let token = renderToken st + 1;
               st1 = st\<lparr>renderToken := token\<rparr>;
               rt = ratioTop st1;
               rl = ratioLeft st1;
               st2 = setLoading True st1
           in renderAllPages token (ApplyScale rt rl) st2)"

definition setScale :: "real \<Rightarrow> bool \<Rightarrow> viewer \<Rightarrow> viewer \<times> task list" where
  "setScale scale rerender st =
     (let st1 = updateZoomUi
                  (st\<lparr>currentScale := clampNumber (Num scale) (minZoom st) (maxZoom st)\<rparr>)
      in if rerender then applyScale (currentScale st1) st1 else (st1, []))"

definition onResize :: "viewer \<Rightarrow> viewer \<times> task list" where
  "onResize st =
     (if thePages st = [] then (st, [])
      else let beforeFit = fitWidthScale st;
               st1 = computeFitWidthScale st;
               epsilon = 2 / 100
           in if \<bar>currentScale st1 - beforeFit\<bar> \<le> epsilon
              then setScale (fitWidthScale st1) True st1
              else (st1, []))"

definition onResetFit :: "viewer \<Rightarrow> viewer \<times> task list" where
  "onResetFit st =
     (let st1 = computeFitWidthScale st;
          r = setScale (fitWidthScale st1) True st1
      in ((fst r)\<lparr>scrollTop := 0\<rparr>, snd r))"

text \<open>\<open>onWheel\<close>: whether a zoom modifier is held, whether the pointer is over the
  viewport, and \<open>deltaY\<close>.\<close>

definition onWheel :: "bool \<Rightarrow> bool \<Rightarrow> real \<Rightarrow> viewer \<Rightarrow> viewer \<times> task list" where
  "onWheel wantsZoom isOverViewport deltaY st =
     (if \<not> wantsZoom then (st, [])
      else if \<not> isOverViewport then (st, [])
      else let direction = (if deltaY > 0 then - 1 else 1)
           in setScale (currentScale st + direction * zoomStep st) True st)"

text \<open>The host's parameters; \<open>None\<close> is \<open>null\<close>.\<close>

record config =
  pdfDataUri :: "string option"
  minZoom_raw :: "number option"
  maxZoom_raw :: "number option"
  zoomStep_raw :: "number option"

definition orElse :: "'a option \<Rightarrow> 'a \<Rightarrow> 'a" where
  "orElse v d = (case v of None \<Rightarrow> d | Some x \<Rightarrow> x)"

definition updateView :: "config \<Rightarrow> viewer \<Rightarrow> viewer \<times> task list" where
  "updateView cfg st =
     (let dataUri = trim (orElse (pdfDataUri cfg) []);
          mn = clampNumber (orElse (minZoom_raw cfg) (Num (1 / 2))) (1 / 10) 5;
          mx = clampNumber (orElse (maxZoom_raw cfg) (Num 3)) mn 10;
          stp = clampNumber (orElse (zoomStep_raw cfg) (Num (1 / 10))) (1 / 100) 1;
          st1 = st\<lparr>minZoom := mn, maxZoom := mx, zoomStep := stp\<rparr>;
          changed = (dataUri \<noteq> orElse (lastDataUri st1) [])
      in if changed then loadFromDataUri dataUri (st1\<lparr>lastDataUri := Some dataUri\<rparr>)
         else onResize st1)"

definition destroy :: "viewer \<Rightarrow> viewer" where
  "destroy st =
     (newPages (st\<lparr>renderToken := renderToken st + 1, doc := None\<rparr>))
       \<lparr>pageCanvases := [], pageWrappers := []\<rparr>"

text \<open>A suspended piece resumes when its promise settles or its frame comes. A settlement
  of the wrong kind for the awaited promise leaves the task pending.\<close>

fun resume :: "task \<Rightarrow> settle \<Rightarrow> viewer \<Rightarrow> viewer \<times> task list" where
  "resume (AwaitGetDocument token bytes) (ResolvedDoc d) st =
     (if token \<noteq> renderToken st then (finallyBlock token st, [])
      else let st1 = (newPages (st\<lparr>doc := Some d\<rparr>))
                       \<lparr>pageCanvases := [], pageWrappers := [], pagesHost := []\<rparr>;
               pageCount = length (doc_pages d)
           in loadPages token d 1 pageCount st1)"
| "resume (AwaitGetDocument token bytes) (Rejected e) st = (loadCatch token e st, [])"
| "resume (AwaitGetDocument token bytes) Resolved st = (st, [AwaitGetDocument token bytes])"
| "resume (AwaitGetPage token d i pageCount) Resolved st =
     (let pg = doc_pages d ! (i - 1);
          st1 = st\<lparr>arrays := (arrays st)(pages st := arrays st (pages st) @ [pg])\<rparr>
      in loadPages token d (i + 1) pageCount st1)"
| "resume (AwaitGetPage token d i pageCount) (Rejected e) st = (loadCatch token e st, [])"
| "resume (AwaitGetPage token d i pageCount) (ResolvedDoc d') st =
     (st, [AwaitGetPage token d i pageCount])"
| "resume (AwaitRender token c arr i) Resolved st = continueRender token c arr i st"
| "resume (AwaitRender token c arr i) (Rejected e) st =
     (case c of
        ApplyScale rt rl \<Rightarrow> (finallyBlock token st, [])
      | _ \<Rightarrow> (loadCatch token e st, []))"
| "resume (AwaitRender token c arr i) (ResolvedDoc d') st = (st, [AwaitRender token c arr i])"
| "resume (AwaitFrames token) s st =
     (let st1 = computeFitWidthScale st;
          st2 = st1\<lparr>currentScale := fitWidthScale st1, scrollTop := 0, scrollLeft := 0\<rparr>
      in renderAllPages token LoadPass2 st2)"
| "resume (RafRestore rt rl) s st = (restoreScroll rt rl st, [])"
| "resume RafInit s st = (updateNavUi (updateZoomUi st), [])"

subsection \<open>The event loop\<close>

record system =
  ctl :: viewer
  pending :: "task list"

text \<open>What can happen: calls of the host (\<open>updateView\<close>, \<open>destroy\<close>), the resize observer,
  user input, a new layout computed by the browser (scroll extents, client size and the
  top offsets of the elements), a scroll by the user (the browser moves the scroll
  position and fires the scroll listener), and the settlement of the \<open>n\<close>-th pending
  task.\<close>

datatype event =
    UpdateView config
  | HostResize
  | ResetFit
  | Wheel bool bool real
  | PrevClick
  | NextClick
  | UserScroll real real
  | Layout real real real real "nat \<Rightarrow> real"
  | Destroy
  | Settle nat settle

definition spawn :: "system \<Rightarrow> viewer \<times> task list \<Rightarrow> system" where
  "spawn sys r = \<lparr>ctl = fst r, pending = pending sys @ snd r\<rparr>"

fun step :: "system \<Rightarrow> event \<Rightarrow> system" where
  "step sys (UpdateView cfg) = spawn sys (updateView cfg (ctl sys))"
| "step sys HostResize = spawn sys (onResize (ctl sys))"
| "step sys ResetFit = spawn sys (onResetFit (ctl sys))"
| "step sys (Wheel wantsZoom over deltaY) = spawn sys (onWheel wantsZoom over deltaY (ctl sys))"
| "step sys PrevClick = sys\<lparr>ctl := onPrevClick (ctl sys)\<rparr>"
| "step sys NextClick = sys\<lparr>ctl := onNextClick (ctl sys)\<rparr>"
| "step sys (UserScroll y x) =
     sys\<lparr>ctl := updateNavUi ((ctl sys)\<lparr>scrollTop := y, scrollLeft := x\<rparr>)\<rparr>"
| "step sys (Layout sh sw ch cw tops) =
     sys\<lparr>ctl := (ctl sys)\<lparr>scrollHeight := sh, scrollWidth := sw, clientHeight := ch,
        clientWidth := cw, offsetTopOf := tops\<rparr>\<rparr>"
| "step sys Destroy = sys\<lparr>ctl := destroy (ctl sys)\<rparr>"
| "step sys (Settle n s) =
     (if n < length (pending sys)
      then spawn (sys\<lparr>pending := take n (pending sys) @ drop (n + 1) (pending sys)\<rparr>)
             (resume (pending sys ! n) s (ctl sys))
      else sys)"

text \<open>The controller after \<open>init\<close>, with the animation-frame callback of \<open>init\<close> pending.\<close>

definition start :: system where
  "start = \<lparr>ctl = initial, pending = [RafInit]\<rparr>"

definition run :: "system \<Rightarrow> event list \<Rightarrow> system" where
  "run sys evs = foldl step sys evs"

text \<open>What the page container shows: for each child in order, the page and scale last
  handed to the renderer.\<close>

definition visiblePages :: "viewer \<Rightarrow> (page \<times> real) option list" where
  "visiblePages st = map (\<lambda>cid. cv_rendered (canvases st cid)) (pagesHost st)"

subsection \<open>Example states\<close>

definition page_a :: page where
  "page_a = \<lparr>page_doc = 1, page_no = 1, page_width = 800, page_height = 1000\<rparr>"

text \<open>One page of width 800 in a viewport of width 1000.\<close>

definition fit_example :: viewer where
  "fit_example = initial\<lparr>arrays := (\<lambda>_. [page_a]), clientWidth := 1000\<rparr>"

text \<open>One page of width 1000 shown at scale 1, which was the fit scale; the viewport
  is now 824 wide, so that the fit scale becomes 0.8.\<close>

definition page_b :: page where
  "page_b = \<lparr>page_doc = 1, page_no = 1, page_width = 1000, page_height = 1400\<rparr>"

definition resize_example :: viewer where
  "resize_example = initial\<lparr>doc := Some \<lparr>doc_id = 1, doc_pages = [page_b]\<rparr>,
     arrays := (\<lambda>_. [page_b]), clientWidth := 824\<rparr>"

text \<open>The state of the scan after the offsets \<open>xs\<close>: nothing seen yet, or the first
  index of least distance among \<open>xs\<close> together with that distance.\<close>

definition first_closest :: "real \<Rightarrow> real list \<Rightarrow> nat \<Rightarrow> bool" where
  "first_closest mid xs b =
     (b < length xs
      \<and> (\<forall>j < length xs. \<bar>xs ! b - mid\<bar> \<le> \<bar>xs ! j - mid\<bar>)
      \<and> (\<forall>j < b. \<bar>xs ! b - mid\<bar> < \<bar>xs ! j - mid\<bar>))"

text \<open>Three page wrappers at offsets 12, 1024 and 2036, scrolled to 800 in a viewport
  of height 600; and two wrappers at offsets 0 and 20 with the reference point at 10.\<close>

definition nav_example :: viewer where
  "nav_example = initial\<lparr>pageWrappers := [0, 1, 2], pagesHost := [0, 1, 2],
     pageCanvases := [0, 1, 2], nextElem := 3,
     offsetTopOf := (\<lambda>_. 0)(0 := 12, 1 := 1024, 2 := 2036),
     scrollTop := 800, clientHeight := 600\<rparr>"

definition tie_example :: viewer where
  "tie_example = initial\<lparr>pageWrappers := [0, 1], pagesHost := [0, 1],
     pageCanvases := [0, 1], nextElem := 2,
     offsetTopOf := (\<lambda>_. 0)(0 := 0, 1 := 20), scrollTop := 10, clientHeight := 0\<rparr>"

text \<open>Identifiers: a text payload, a PDF header, a payload of three bytes, and a payload
  that is not base64.\<close>

definition hello_uri :: string where
  "hello_uri = ''data:text/plain;base64,SGVsbG8gd29ybGQ=''"

definition hello_bytes :: "byte list" where
  "hello_bytes = [72, 101, 108, 108, 111, 32, 119, 111, 114, 108, 100]"

definition pdf_uri_a :: string where
  "pdf_uri_a = ''data:application/pdf;base64,JVBERi0x''"

definition short_uri :: string where
  "short_uri = ''data:application/pdf;base64,JVBE''"

definition bad_uri :: string where
  "bad_uri = ''data:application/pdf;base64,!!!!''"

text \<open>The encoding of \<open>%PDF\<close> wrapped with a line feed and a space.\<close>

definition spaced_payload :: string where
  "spaced_payload = [CHR ''J'', CHR ''V'', CHR ''B'', CHR ''E'', CHR 0x0A, CHR ''R'', CHR ''g'', CHR '' '', CHR ''='', CHR ''='']"









text \<open>Two documents of one page each, loaded in succession: the second load starts while
  the first waits for its page, the second document arrives, then the page of the first,
  then the page of the second, and all renders settle.\<close>

definition pdf_uri_b :: string where
  "pdf_uri_b = ''data:application/pdf;base64,JVBERi0y''"

definition page_A1 :: page where
  "page_A1 = \<lparr>page_doc = 1, page_no = 1, page_width = 600, page_height = 800\<rparr>"

definition page_B1 :: page where
  "page_B1 = \<lparr>page_doc = 2, page_no = 1, page_width = 600, page_height = 800\<rparr>"

definition doc_A :: pdf_doc where
  "doc_A = \<lparr>doc_id = 1, doc_pages = [page_A1]\<rparr>"

definition doc_B :: pdf_doc where
  "doc_B = \<lparr>doc_id = 2, doc_pages = [page_B1]\<rparr>"

definition cfg_of :: "string \<Rightarrow> config" where
  "cfg_of u = \<lparr>pdfDataUri = Some u, minZoom_raw = None, maxZoom_raw = None, zoomStep_raw = None\<rparr>"

definition two_loads :: "event list" where
  "two_loads =
     [Settle 0 Resolved,
      Layout 800 624 800 624 (\<lambda>_. 0),
      UpdateView (cfg_of pdf_uri_a),
      Settle 0 (ResolvedDoc doc_A),
      UpdateView (cfg_of pdf_uri_b),
      Settle 1 (ResolvedDoc doc_B),
      Settle 0 Resolved,
      Settle 0 Resolved,
      Settle 0 Resolved,
      Settle 0 Resolved,
      Settle 0 Resolved,
      Settle 0 Resolved,
      Settle 0 Resolved]"

section \<open>Properties\<close>

subsection \<open>Scale engine\<close>

lemma clampNumber_Num:
  "mn \<le> mx \<Longrightarrow> clampNumber (Num x) mn mx = (if x < mn then mn else if mx < x then mx else x)"
  by (simp add: clampNumber_def)

lemma clampNumber_idem:
  "clampNumber (Num (clampNumber v mn mx)) mn mx = clampNumber v mn mx"
  by (cases v) (auto simp: clampNumber_def)


text \<open>C2. With at least one page loaded, the fit scale is the clamp to
  \<open>[minZoom, maxZoom]\<close> of \<open>max(200, W - 24) / max(1, P)\<close>, where \<open>W\<close> is the viewport width
  and \<open>P\<close> the width of the first page at scale 1; for bounds \<open>minZoom \<le> maxZoom\<close> the
  clamp is the standard one. For \<open>W = 1000\<close> and \<open>P = 800\<close> the unclamped value is
  \<open>976 / 800 = 1.22\<close>. With no page loaded the fit scale is 1.\<close>

theorem fit_width_scale:
  "(thePages st \<noteq> [] \<longrightarrow>
      fitWidthScale (computeFitWidthScale st) =
        clampNumber (Num (max 200 (clientWidth st - 24) / max 1 (page_width (hd (thePages st)))))
          (minZoom st) (maxZoom st))
   \<and> (thePages st \<noteq> [] \<and> minZoom st \<le> maxZoom st \<longrightarrow>
      fitWidthScale (computeFitWidthScale st) =
        (let raw = max 200 (clientWidth st - 24) / max 1 (page_width (hd (thePages st)))
         in if raw < minZoom st then minZoom st else if maxZoom st < raw then maxZoom st else raw))
   \<and> (clientWidth st = 1000 \<and> page_width (hd (thePages st)) = 800 \<longrightarrow>
      max 200 (clientWidth st - 24) / max 1 (page_width (hd (thePages st))) = 976 / 800
      \<and> (976 / 800 :: real) = 122 / 100)
   \<and> (thePages st = [] \<longrightarrow> fitWidthScale (computeFitWidthScale st) = 1)"
  by (simp add: computeFitWidthScale_def getViewport_def Let_def clampNumber_Num)

theorem fit_width_scale_witness:
  "thePages fit_example \<noteq> [] \<and> minZoom fit_example \<le> maxZoom fit_example
   \<and> clientWidth fit_example = 1000 \<and> page_width (hd (thePages fit_example)) = 800
   \<and> fitWidthScale (computeFitWidthScale fit_example) = 122 / 100"
  using fit_width_scale [of fit_example]
  by (simp add: fit_example_def initial_def thePages_def page_a_def)

subsection \<open>Resize\<close>

lemma renderPageToCanvas_scale [simp]:
  "currentScale (fst (renderPageToCanvas pg cid sc token st)) = currentScale st"
  "fitWidthScale (fst (renderPageToCanvas pg cid sc token st)) = fitWidthScale st"
  "minZoom (fst (renderPageToCanvas pg cid sc token st)) = minZoom st"
  "maxZoom (fst (renderPageToCanvas pg cid sc token st)) = maxZoom st"
  "renderToken (fst (renderPageToCanvas pg cid sc token st)) = renderToken st"
  by (simp_all add: renderPageToCanvas_def Let_def)

lemma renderLoop_scale [simp]:
  "currentScale (fst (renderLoop token ps i st)) = currentScale st
   \<and> fitWidthScale (fst (renderLoop token ps i st)) = fitWidthScale st
   \<and> minZoom (fst (renderLoop token ps i st)) = minZoom st
   \<and> maxZoom (fst (renderLoop token ps i st)) = maxZoom st
   \<and> renderToken (fst (renderLoop token ps i st)) = renderToken st"
proof (induction ps arbitrary: i st)
  case Nil
  show ?case by simp
next
  case (Cons pg ps)
  show ?case
  proof (cases "token = renderToken st")
    case False
    then show ?thesis by simp
  next
    case True
    show ?thesis
      unfolding renderLoop.simps Let_def
      by (simp only: Cons.IH renderPageToCanvas_scale fst_conv if_distrib [of fst] if_distrib [of currentScale]
            if_distrib [of fitWidthScale] if_distrib [of minZoom] if_distrib [of maxZoom] if_distrib [of renderToken])
         simp
  qed
qed

lemma finallyBlock_scale [simp]:
  "currentScale (finallyBlock token st) = currentScale st"
  "fitWidthScale (finallyBlock token st) = fitWidthScale st"
  "minZoom (finallyBlock token st) = minZoom st"
  "maxZoom (finallyBlock token st) = maxZoom st"
  by (simp_all add: finallyBlock_def setLoading_def)

lemma updateUi_scale [simp]:
  "currentScale (updateZoomUi st) = currentScale st"
  "fitWidthScale (updateZoomUi st) = fitWidthScale st"
  "minZoom (updateZoomUi st) = minZoom st"
  "maxZoom (updateZoomUi st) = maxZoom st"
  "currentScale (updateNavUi st) = currentScale st"
  "fitWidthScale (updateNavUi st) = fitWidthScale st"
  "minZoom (updateNavUi st) = minZoom st"
  "maxZoom (updateNavUi st) = maxZoom st"
  by (simp_all add: updateZoomUi_def updateNavUi_def Let_def)

lemma afterRender_scale [simp]:
  "currentScale (fst (afterRender token c st)) = currentScale st"
  "fitWidthScale (fst (afterRender token c st)) = fitWidthScale st"
  "minZoom (fst (afterRender token c st)) = minZoom st"
  "maxZoom (fst (afterRender token c st)) = maxZoom st"
  by (simp_all add: afterRender_def split: caller.splits)

lemma continueRender_scale [simp]:
  "currentScale (fst (continueRender token c arr i st)) = currentScale st"
  "fitWidthScale (fst (continueRender token c arr i st)) = fitWidthScale st"
  "minZoom (fst (continueRender token c arr i st)) = minZoom st"
  "maxZoom (fst (continueRender token c arr i st)) = maxZoom st"
  by (simp_all add: continueRender_def Let_def split: option.splits)

lemma renderAllPages_scale [simp]:
  "currentScale (fst (renderAllPages token c st)) = currentScale st"
  "fitWidthScale (fst (renderAllPages token c st)) = fitWidthScale st"
  "minZoom (fst (renderAllPages token c st)) = minZoom st"
  "maxZoom (fst (renderAllPages token c st)) = maxZoom st"
  by (simp_all add: renderAllPages_def Let_def)

lemma applyScale_scale [simp]:
  "currentScale (fst (applyScale sc st)) = currentScale st"
  "fitWidthScale (fst (applyScale sc st)) = fitWidthScale st"
  "minZoom (fst (applyScale sc st)) = minZoom st"
  "maxZoom (fst (applyScale sc st)) = maxZoom st"
  by (simp_all add: applyScale_def Let_def setLoading_def)

lemma setScale_scale:
  "currentScale (fst (setScale sc rr st)) = clampNumber (Num sc) (minZoom st) (maxZoom st)"
  "fitWidthScale (fst (setScale sc rr st)) = fitWidthScale st"
  "minZoom (fst (setScale sc rr st)) = minZoom st"
  "maxZoom (fst (setScale sc rr st)) = maxZoom st"
  by (simp_all add: setScale_def Let_def)

lemma computeFit_fields [simp]:
  "currentScale (computeFitWidthScale st) = currentScale st"
  "minZoom (computeFitWidthScale st) = minZoom st"
  "maxZoom (computeFitWidthScale st) = maxZoom st"
  "thePages (computeFitWidthScale st) = thePages st"
  by (simp_all add: computeFitWidthScale_def Let_def thePages_def)

lemma computeFit_clamped:
  "thePages st \<noteq> [] \<Longrightarrow>
   clampNumber (Num (fitWidthScale (computeFitWidthScale st))) (minZoom st) (maxZoom st)
     = fitWidthScale (computeFitWidthScale st)"
  by (simp add: computeFitWidthScale_def Let_def clampNumber_idem)

text \<open>C7. On a resize with pages loaded, if the current scale is within 0.02 of the fit
  scale from before the resize, the current scale becomes the freshly computed fit
  scale; otherwise it is left unchanged. The stored fit scale is the fresh one in both
  cases.\<close>

theorem resize_snaps_to_fit:
  "thePages st \<noteq> [] \<Longrightarrow>
   currentScale (fst (onResize st)) =
     (if \<bar>currentScale st - fitWidthScale st\<bar> \<le> 2 / 100
      then fitWidthScale (computeFitWidthScale st) else currentScale st)
   \<and> fitWidthScale (fst (onResize st)) = fitWidthScale (computeFitWidthScale st)"
  by (simp add: onResize_def Let_def setScale_scale computeFit_clamped)


theorem resize_snaps_to_fit_witness:
  "thePages resize_example \<noteq> []
   \<and> currentScale resize_example = 1 \<and> fitWidthScale resize_example = 1
   \<and> fitWidthScale (computeFitWidthScale resize_example) = 8 / 10
   \<and> currentScale (fst (onResize resize_example)) = 8 / 10
   \<and> currentScale (fst (onResize (resize_example\<lparr>currentScale := 2\<rparr>))) = 2"
  using resize_snaps_to_fit [of resize_example]
    resize_snaps_to_fit [of "resize_example\<lparr>currentScale := 2\<rparr>"]
  by (simp add: resize_example_def initial_def thePages_def page_b_def
        computeFitWidthScale_def getViewport_def clampNumber_def)

subsection \<open>Current page and navigation\<close>

lemma first_closest_snoc_closer:
  assumes "xs = [] \<or> (first_closest mid xs b \<and> \<bar>y - mid\<bar> < \<bar>xs ! b - mid\<bar>)"
  shows "first_closest mid (xs @ [y]) (length xs)"
  using assms unfolding first_closest_def
  by (auto simp: nth_append less_Suc_eq)

lemma first_closest_snoc_keep:
  assumes "first_closest mid xs b" "\<not> \<bar>y - mid\<bar> < \<bar>xs ! b - mid\<bar>"
  shows "first_closest mid (xs @ [y]) b"
  using assms unfolding first_closest_def
  by (auto simp: nth_append less_Suc_eq)

lemma scanPages_first_closest:
  assumes "(bd = None \<and> xs = []) \<or> (first_closest mid xs b \<and> bd = Some \<bar>xs ! b - mid\<bar>)"
    and "xs @ ys \<noteq> []"
  shows "first_closest mid (xs @ ys) (scanPages mid ys (length xs) b bd)"
  using assms
proof (induction ys arbitrary: xs b bd)
  case Nil
  then show ?case by auto
next
  case (Cons y ys)
  show ?case
  proof (cases "closer \<bar>y - mid\<bar> bd")
    case True
    have "xs = [] \<or> (first_closest mid xs b \<and> \<bar>y - mid\<bar> < \<bar>xs ! b - mid\<bar>)"
      using Cons.prems(1) True by auto
    then have fc: "first_closest mid (xs @ [y]) (length xs)"
      by (rule first_closest_snoc_closer)
    have "first_closest mid ((xs @ [y]) @ ys)
            (scanPages mid ys (length (xs @ [y])) (length xs) (Some \<bar>(xs @ [y]) ! length xs - mid\<bar>))"
      by (rule Cons.IH) (use fc in auto)
    then show ?thesis using True by (simp add: Let_def)
  next
    case False
    then have st: "first_closest mid xs b" "bd = Some \<bar>xs ! b - mid\<bar>"
        "\<not> \<bar>y - mid\<bar> < \<bar>xs ! b - mid\<bar>"
      using Cons.prems(1) by auto
    have fc: "first_closest mid (xs @ [y]) b"
      using st(1,3) by (rule first_closest_snoc_keep)
    have "b < length xs" using st(1) by (simp add: first_closest_def)
    then have "(xs @ [y]) ! b = xs ! b" by (simp add: nth_append)
    then have "first_closest mid ((xs @ [y]) @ ys) (scanPages mid ys (length (xs @ [y])) b bd)"
      using fc st(2) by (intro Cons.IH) auto
    then show ?thesis using False by (simp add: Let_def)
  qed
qed

lemma getCurrentPageIndex_first_closest:
  assumes "pageWrappers st \<noteq> []"
  shows "first_closest (viewMid st) (map (offsetTopOf st) (pageWrappers st)) (getCurrentPageIndex st)"
  using scanPages_first_closest [of None "[]" "viewMid st" 0 "map (offsetTopOf st) (pageWrappers st)"] assms
  by (simp add: getCurrentPageIndex_def)

text \<open>C9. With page wrappers present, the current page index is an index of least
  distance between the wrapper's top offset and \<open>scrollTop + 0.35 * clientHeight\<close>, and
  every earlier index is strictly farther (the first of the closest wins); the previous
  button is disabled exactly when the index is the first, the next button exactly when
  it is the last. With no page wrapper both buttons are disabled and the label is
  \<open>0 / 0\<close>.\<close>

theorem current_page_and_nav:
  "(pageWrappers st \<noteq> [] \<longrightarrow>
      (let i = getCurrentPageIndex st;
           target = scrollTop st + 35 / 100 * clientHeight st;
           total = length (pageWrappers st)
       in i < total
          \<and> (\<forall>j < total. \<bar>pageTopOffset st i - target\<bar> \<le> \<bar>pageTopOffset st j - target\<bar>)
          \<and> (\<forall>j < i. \<bar>pageTopOffset st i - target\<bar> < \<bar>pageTopOffset st j - target\<bar>)
          \<and> btnPrev_disabled (updateNavUi st) = (i = 0)
          \<and> btnNext_disabled (updateNavUi st) = (i = total - 1)
          \<and> pageLabel (updateNavUi st) = show_nat (i + 1) @ '' / '' @ show_nat total))
   \<and> (pageWrappers st = [] \<longrightarrow>
      btnPrev_disabled (updateNavUi st) \<and> btnNext_disabled (updateNavUi st)
      \<and> pageLabel (updateNavUi st) = ''0 / 0'')"
proof (intro conjI impI)
  assume ne: "pageWrappers st \<noteq> []"
  let ?i = "getCurrentPageIndex st"
  let ?n = "length (pageWrappers st)"
  have fc: "first_closest (viewMid st) (map (offsetTopOf st) (pageWrappers st)) ?i"
    using ne by (rule getCurrentPageIndex_first_closest)
  then have lt: "?i < ?n" by (simp add: first_closest_def)
  have mid: "viewMid st = scrollTop st + 35 / 100 * clientHeight st"
    by (simp add: viewMid_def)
  have a: "\<forall>j < ?n. \<bar>pageTopOffset st ?i - viewMid st\<bar> \<le> \<bar>pageTopOffset st j - viewMid st\<bar>"
    using fc lt by (simp add: first_closest_def pageTopOffset_def)
  have b: "\<forall>j < ?i. \<bar>pageTopOffset st ?i - viewMid st\<bar> < \<bar>pageTopOffset st j - viewMid st\<bar>"
    using fc lt by (simp add: first_closest_def pageTopOffset_def)
  have c: "btnPrev_disabled (updateNavUi st) = (?i = 0)"
    "btnNext_disabled (updateNavUi st) = (?i = ?n - 1)"
    "pageLabel (updateNavUi st) = show_nat (?i + 1) @ '' / '' @ show_nat ?n"
    using ne lt by (auto simp: updateNavUi_def Let_def)
  show "let i = getCurrentPageIndex st;
           target = scrollTop st + 35 / 100 * clientHeight st;
           total = length (pageWrappers st)
       in i < total
          \<and> (\<forall>j < total. \<bar>pageTopOffset st i - target\<bar> \<le> \<bar>pageTopOffset st j - target\<bar>)
          \<and> (\<forall>j < i. \<bar>pageTopOffset st i - target\<bar> < \<bar>pageTopOffset st j - target\<bar>)
          \<and> btnPrev_disabled (updateNavUi st) = (i = 0)
          \<and> btnNext_disabled (updateNavUi st) = (i = total - 1)
          \<and> pageLabel (updateNavUi st) = show_nat (i + 1) @ '' / '' @ show_nat total"
    unfolding Let_def mid [symmetric] using lt a b c by blast
next
  assume "pageWrappers st = []"
  then show "btnPrev_disabled (updateNavUi st)" "btnNext_disabled (updateNavUi st)"
    "pageLabel (updateNavUi st) = ''0 / 0''"
    by (simp_all add: updateNavUi_def)
qed


theorem current_page_and_nav_witness:
  "pageWrappers nav_example \<noteq> [] \<and> getCurrentPageIndex nav_example = 1
   \<and> \<not> btnPrev_disabled (updateNavUi nav_example)
   \<and> \<not> btnNext_disabled (updateNavUi nav_example)
   \<and> pageLabel (updateNavUi nav_example) = ''2 / 3''
   \<and> getCurrentPageIndex tie_example = 0
   \<and> btnPrev_disabled (updateNavUi tie_example)
   \<and> pageWrappers initial = [] \<and> btnNext_disabled (updateNavUi initial)"
  using current_page_and_nav [of nav_example] current_page_and_nav [of tie_example]
    current_page_and_nav [of initial]
  by (simp add: nav_example_def tie_example_def initial_def getCurrentPageIndex_def viewMid_def
        Let_def show_nat.simps digit_char_def char_of_def bit_Suc_0_iff)

subsection \<open>Loading: length gate, decoding and signature\<close>

lemma clearDocument_fields [simp]:
  "doc (clearDocument st) = None"
  "thePages (clearDocument st) = []"
  "pagesHost (clearDocument st) = []"
  "pageWrappers (clearDocument st) = []"
  "pageCanvases (clearDocument st) = []"
  "pageLabel (clearDocument st) = ''0 / 0''"
  "zoomLabel (clearDocument st) = ''100%''"
  "errorBox_shown (clearDocument st) = errorBox_shown st"
  "errorBox_text (clearDocument st) = errorBox_text st"
  "renderToken (clearDocument st) = renderToken st"
  "overlay_shown (clearDocument st) = overlay_shown st"
  by (simp_all add: clearDocument_def newPages_def thePages_def)

lemma load_short:
  assumes "length (trim u) < 20"
  shows "loadFromDataUri u st = (clearDocument (clearError (st\<lparr>renderToken := renderToken st + 1\<rparr>)), [])"
  using assms by (simp add: loadFromDataUri_def Let_def)

lemma load_bad_signature:
  assumes "20 \<le> length (trim u)" "dataUriToBytes (trim u) = Inr bytes" "signature_of bytes \<noteq> ''%PDF''"
  shows "loadFromDataUri u st =
    (setLoading False (setError (''Not a PDF. Signature: '' @ signature_of bytes)
       (clearDocument (setLoading True (clearError (st\<lparr>renderToken := renderToken st + 1\<rparr>))))), [])"
proof -
  have ne: "trim u \<noteq> []" using assms(1) by auto
  show ?thesis
    using assms ne
    by (simp add: loadFromDataUri_def Let_def finallyBlock_def setError_def setLoading_def clearError_def)
qed

lemma load_decode_error:
  assumes "20 \<le> length (trim u)" "dataUriToBytes (trim u) = Inl e"
  shows "loadFromDataUri u st =
    (setLoading False (setError (''Failed to load PDF: '' @ errorMessage e)
       (clearDocument (setLoading True (clearError (st\<lparr>renderToken := renderToken st + 1\<rparr>))))), [])"
proof -
  have ne: "trim u \<noteq> []" using assms(1) by auto
  show ?thesis
    using assms ne
    by (simp add: loadFromDataUri_def Let_def loadCatch_def finallyBlock_def setError_def setLoading_def clearError_def)
qed

lemma load_pending:
  assumes "snd (loadFromDataUri u st) \<noteq> []"
  shows "\<exists>bytes. dataUriToBytes (trim u) = Inr bytes \<and> signature_of bytes = ''%PDF''
           \<and> 20 \<le> length (trim u)
           \<and> snd (loadFromDataUri u st) = [AwaitGetDocument (renderToken st + 1) bytes]"
  using assms
  by (auto simp: loadFromDataUri_def Let_def setLoading_def clearError_def split: if_splits sum.splits)

lemma load_ok:
  assumes "20 \<le> length (trim u)" "dataUriToBytes (trim u) = Inr bytes" "signature_of bytes = ''%PDF''"
  shows "loadFromDataUri u st =
    (setLoading True (clearError (st\<lparr>renderToken := renderToken st + 1\<rparr>)),
     [AwaitGetDocument (renderToken st + 1) bytes])"
proof -
  have ne: "trim u \<noteq> []" using assms(1) by auto
  show ?thesis
    using assms ne
    by (simp add: loadFromDataUri_def Let_def setLoading_def clearError_def)
qed

lemma signature_of_nth:
  "length (signature_of bytes) = 4"
  "i < 4 \<Longrightarrow> signature_of bytes ! i = (if i < length bytes then char_of (unat (bytes ! i)) else CHR 0x00)"
proof -
  show "length (signature_of bytes) = 4" by (simp add: signature_of_def)
  assume "i < 4"
  then have "i = 0 \<or> i = 1 \<or> i = 2 \<or> i = 3" by auto
  then show "signature_of bytes ! i = (if i < length bytes then char_of (unat (bytes ! i)) else CHR 0x00)"
    by (auto simp: signature_of_def byteAt_def char_of_def)
qed

lemma short_buffer_signature:
  assumes "length bytes < 4"
  shows "signature_of bytes \<noteq> ''%PDF''"
proof
  assume eq: "signature_of bytes = ''%PDF''"
  have "signature_of bytes ! 3 = CHR 0x00" using assms by (simp add: signature_of_nth)
  then show False unfolding eq by simp
qed


lemmas decode_eval = dataUriToBytes_def trim_def js_space_def startsWith_def atob_def
  strip_padding_def ascii_whitespace_def b64val_def join4_def bytes3_def bytes2_def

lemma hello_uri_facts:
  "trim hello_uri = hello_uri" "20 \<le> length hello_uri"
  "dataUriToBytes hello_uri = Inr hello_bytes"
  "signature_of hello_bytes = ''Hell''"
  by (simp_all add: hello_uri_def hello_bytes_def decode_eval signature_of_def byteAt_def
        char_of_def bit_Suc_0_iff)

lemma pdf_uri_a_facts:
  "trim pdf_uri_a = pdf_uri_a" "20 \<le> length pdf_uri_a"
  "dataUriToBytes pdf_uri_a = Inr [37, 80, 68, 70, 45, 49]"
  "signature_of [37, 80, 68, 70, 45, 49] = ''%PDF''"
  by (simp_all add: pdf_uri_a_def decode_eval signature_of_def byteAt_def
        char_of_def bit_Suc_0_iff)

lemma short_uri_facts:
  "trim short_uri = short_uri" "20 \<le> length short_uri"
  "dataUriToBytes short_uri = Inr [37, 80, 68]"
  "signature_of [37, 80, 68] = [CHR ''%'', CHR ''P'', CHR ''D'', CHR 0x00]"
  by (simp_all add: short_uri_def decode_eval signature_of_def byteAt_def
        char_of_def bit_Suc_0_iff)

lemma bad_uri_facts:
  "trim bad_uri = bad_uri" "20 \<le> length bad_uri"
  "dataUriToBytes bad_uri = Inl atob_exn"
  "errorMessage atob_exn = ''The string to be decoded is not correctly encoded.''"
  by (simp_all add: bad_uri_def decode_eval errorMessage_def atob_exn_def)

lemma length_trim: "length (trim u) \<le> length u"
proof -
  have "length (dropWhile js_space (rev (dropWhile js_space u))) \<le> length (rev (dropWhile js_space u))"
    by (rule length_dropWhile_le)
  also have "\<dots> \<le> length u" by (simp add: length_dropWhile_le)
  finally show ?thesis by (simp add: trim_def)
qed

text \<open>C5. An identifier shorter than 20 characters (as supplied, or after the trimming
  that the length test applies) yields the silent empty state: no task is left, the document, the
  page list and the page container are cleared and no error banner is shown. An
  identifier of at least 20 characters whose decoded bytes do not start with \<open>%PDF\<close>
  yields the banner \<open>Not a PDF. Signature: \<close> followed by the four observed characters,
  and no task is left. The PDF library is only reached (a pending \<open>getDocument\<close>) when
  the decoded bytes carry the signature.\<close>

theorem signature_gate:
  "(length u < 20 \<longrightarrow> length (trim u) < 20)
   \<and> (length (trim u) < 20 \<longrightarrow>
      (let r = loadFromDataUri u st in
       snd r = [] \<and> doc (fst r) = None \<and> thePages (fst r) = [] \<and> pagesHost (fst r) = []
       \<and> pageWrappers (fst r) = [] \<and> pageCanvases (fst r) = [] \<and> pageLabel (fst r) = ''0 / 0''
       \<and> \<not> errorBox_shown (fst r) \<and> errorBox_text (fst r) = []))
   \<and> (20 \<le> length (trim u) \<and> dataUriToBytes (trim u) = Inr bytes
        \<and> signature_of bytes \<noteq> ''%PDF'' \<longrightarrow>
      (let r = loadFromDataUri u st in
       errorBox_shown (fst r)
       \<and> errorBox_text (fst r) = ''Not a PDF. Signature: '' @ signature_of bytes
       \<and> length (signature_of bytes) = 4
       \<and> snd r = [] \<and> doc (fst r) = None \<and> thePages (fst r) = [] \<and> pagesHost (fst r) = []))
   \<and> (snd (loadFromDataUri u st) \<noteq> [] \<longrightarrow>
      (\<exists>bs. dataUriToBytes (trim u) = Inr bs \<and> signature_of bs = ''%PDF''
            \<and> snd (loadFromDataUri u st) = [AwaitGetDocument (renderToken st + 1) bs]))"
proof (intro conjI impI)
  assume "length u < 20"
  then show "length (trim u) < 20" using length_trim [of u] by linarith
next
  assume "length (trim u) < 20"
  then show "let r = loadFromDataUri u st in
       snd r = [] \<and> doc (fst r) = None \<and> thePages (fst r) = [] \<and> pagesHost (fst r) = []
       \<and> pageWrappers (fst r) = [] \<and> pageCanvases (fst r) = [] \<and> pageLabel (fst r) = ''0 / 0''
       \<and> \<not> errorBox_shown (fst r) \<and> errorBox_text (fst r) = []"
    by (simp add: load_short clearError_def)
next
  assume "20 \<le> length (trim u) \<and> dataUriToBytes (trim u) = Inr bytes
        \<and> signature_of bytes \<noteq> ''%PDF''"
  then have "loadFromDataUri u st =
    (setLoading False (setError (''Not a PDF. Signature: '' @ signature_of bytes)
       (clearDocument (setLoading True (clearError (st\<lparr>renderToken := renderToken st + 1\<rparr>))))), [])"
    by (intro load_bad_signature) auto
  then show "let r = loadFromDataUri u st in
       errorBox_shown (fst r)
       \<and> errorBox_text (fst r) = ''Not a PDF. Signature: '' @ signature_of bytes
       \<and> length (signature_of bytes) = 4
       \<and> snd r = [] \<and> doc (fst r) = None \<and> thePages (fst r) = [] \<and> pagesHost (fst r) = []"
    by (simp add: setLoading_def setError_def thePages_def signature_of_nth(1))
        (simp add: clearDocument_def newPages_def)
next
  assume "snd (loadFromDataUri u st) \<noteq> []"
  then show "\<exists>bs. dataUriToBytes (trim u) = Inr bs \<and> signature_of bs = ''%PDF''
            \<and> snd (loadFromDataUri u st) = [AwaitGetDocument (renderToken st + 1) bs]"
    using load_pending by blast
qed

theorem signature_gate_witness:
  "length ''abc'' < 20 \<and> length (trim ''abc'') < 20
   \<and> snd (loadFromDataUri ''abc'' initial) = []
   \<and> \<not> errorBox_shown (fst (loadFromDataUri ''abc'' initial))
   \<and> 20 \<le> length (trim hello_uri) \<and> dataUriToBytes (trim hello_uri) = Inr hello_bytes
   \<and> signature_of hello_bytes \<noteq> ''%PDF''
   \<and> errorBox_shown (fst (loadFromDataUri hello_uri initial))
   \<and> errorBox_text (fst (loadFromDataUri hello_uri initial)) = ''Not a PDF. Signature: Hell''
   \<and> snd (loadFromDataUri hello_uri initial) = []
   \<and> snd (loadFromDataUri pdf_uri_a initial) \<noteq> []
   \<and> dataUriToBytes (trim pdf_uri_a) = Inr [37, 80, 68, 70, 45, 49]"
proof -
  have a: "length (trim ''abc'') < 20" by (simp add: trim_def js_space_def)
  have p: "snd (loadFromDataUri pdf_uri_a initial) \<noteq> []"
    using load_ok [of pdf_uri_a "[37, 80, 68, 70, 45, 49]" initial] by (simp add: pdf_uri_a_facts)
  show ?thesis
    using signature_gate [of "''abc''" initial] signature_gate [of hello_uri initial hello_bytes]
      signature_gate [of pdf_uri_a initial] a p
    by (simp add: hello_uri_facts pdf_uri_a_facts Let_def)
qed

text \<open>C10. The signature always has four characters: position \<open>i\<close> is the byte at \<open>i\<close>
  when the buffer has one and NUL otherwise. An identifier of at least 20 characters
  whose payload decodes to fewer than four bytes yields the \<open>Not a PDF\<close> banner with that
  padded signature, not the silent empty state.\<close>

theorem signature_total:
  "length (signature_of bytes) = 4
   \<and> (\<forall>i < 4. signature_of bytes ! i =
         (if i < length bytes then char_of (unat (bytes ! i)) else CHR 0x00))
   \<and> (20 \<le> length (trim u) \<and> dataUriToBytes (trim u) = Inr bytes \<and> length bytes < 4 \<longrightarrow>
      (let r = loadFromDataUri u st in
       errorBox_shown (fst r)
       \<and> errorBox_text (fst r) = ''Not a PDF. Signature: '' @ signature_of bytes
       \<and> snd r = []))"
proof (intro conjI impI allI)
  show "length (signature_of bytes) = 4" by (rule signature_of_nth(1))
next
  fix i :: nat assume "i < 4"
  then show "signature_of bytes ! i =
         (if i < length bytes then char_of (unat (bytes ! i)) else CHR 0x00)"
    by (rule signature_of_nth(2))
next
  assume h: "20 \<le> length (trim u) \<and> dataUriToBytes (trim u) = Inr bytes \<and> length bytes < 4"
  then have "signature_of bytes \<noteq> ''%PDF''" by (intro short_buffer_signature) simp
  with h have "loadFromDataUri u st =
    (setLoading False (setError (''Not a PDF. Signature: '' @ signature_of bytes)
       (clearDocument (setLoading True (clearError (st\<lparr>renderToken := renderToken st + 1\<rparr>))))), [])"
    by (intro load_bad_signature) auto
  then show "let r = loadFromDataUri u st in
       errorBox_shown (fst r)
       \<and> errorBox_text (fst r) = ''Not a PDF. Signature: '' @ signature_of bytes
       \<and> snd r = []"
    by (simp add: setLoading_def setError_def)
qed

theorem signature_total_witness:
  "20 \<le> length (trim short_uri) \<and> dataUriToBytes (trim short_uri) = Inr [37, 80, 68]
   \<and> length [37, 80, 68 :: byte] < 4
   \<and> signature_of [37, 80, 68] = [CHR ''%'', CHR ''P'', CHR ''D'', CHR 0x00]
   \<and> errorBox_shown (fst (loadFromDataUri short_uri initial))
   \<and> errorBox_text (fst (loadFromDataUri short_uri initial))
       = ''Not a PDF. Signature: '' @ [CHR ''%'', CHR ''P'', CHR ''D'', CHR 0x00]
   \<and> snd (loadFromDataUri short_uri initial) = []"
  using signature_total [of "[37, 80, 68]" short_uri initial]
  by (simp add: short_uri_facts Let_def)

text \<open>C4, as stated, fails: a payload that is not base64 makes \<open>atob\<close> throw inside the
  \<open>try\<close> block, and the \<open>catch\<close> block shows an error banner.\<close>

theorem malformed_payload_counterexample:
  "20 \<le> length (trim bad_uri) \<and> dataUriToBytes (trim bad_uri) = Inl atob_exn
   \<and> errorBox_shown (fst (loadFromDataUri bad_uri initial))
   \<and> errorBox_text (fst (loadFromDataUri bad_uri initial))
       = ''Failed to load PDF: The string to be decoded is not correctly encoded.''"
  using load_decode_error [of bad_uri atob_exn initial]
  by (simp add: bad_uri_facts setLoading_def setError_def)

text \<open>C4, amended. For an identifier of at least 20 characters whose payload cannot be
  decoded, the load leaves no task, clears the document, the page list and the page
  container, hides the loading overlay and shows the banner \<open>Failed to load PDF: \<close>
  followed by the decoder's message.\<close>

theorem malformed_payload_banner:
  "20 \<le> length (trim u) \<and> dataUriToBytes (trim u) = Inl e \<longrightarrow>
     (let r = loadFromDataUri u st in
      snd r = [] \<and> doc (fst r) = None \<and> thePages (fst r) = [] \<and> pagesHost (fst r) = []
      \<and> pageWrappers (fst r) = [] \<and> pageCanvases (fst r) = [] \<and> pageLabel (fst r) = ''0 / 0''
      \<and> errorBox_shown (fst r)
      \<and> errorBox_text (fst r) = ''Failed to load PDF: '' @ errorMessage e
      \<and> \<not> overlay_shown (fst r))"
proof
  assume "20 \<le> length (trim u) \<and> dataUriToBytes (trim u) = Inl e"
  then have "loadFromDataUri u st =
    (setLoading False (setError (''Failed to load PDF: '' @ errorMessage e)
       (clearDocument (setLoading True (clearError (st\<lparr>renderToken := renderToken st + 1\<rparr>))))), [])"
    by (intro load_decode_error) auto
  then show "let r = loadFromDataUri u st in
      snd r = [] \<and> doc (fst r) = None \<and> thePages (fst r) = [] \<and> pagesHost (fst r) = []
      \<and> pageWrappers (fst r) = [] \<and> pageCanvases (fst r) = [] \<and> pageLabel (fst r) = ''0 / 0''
      \<and> errorBox_shown (fst r)
      \<and> errorBox_text (fst r) = ''Failed to load PDF: '' @ errorMessage e
      \<and> \<not> overlay_shown (fst r)"
    by (simp add: setLoading_def setError_def thePages_def)
       (simp add: clearDocument_def newPages_def)
qed

theorem malformed_payload_banner_witness:
  "20 \<le> length (trim bad_uri) \<and> dataUriToBytes (trim bad_uri) = Inl atob_exn
   \<and> snd (loadFromDataUri bad_uri initial) = []
   \<and> doc (fst (loadFromDataUri bad_uri initial)) = None
   \<and> errorBox_text (fst (loadFromDataUri bad_uri initial))
       = ''Failed to load PDF: The string to be decoded is not correctly encoded.''"
  using malformed_payload_banner [of bad_uri atob_exn initial]
  by (simp add: bad_uri_facts Let_def)

subsection \<open>Byte source decoder: round trip\<close>

lemma split4: "\<exists>q r. (a::nat) = q * 4 + r \<and> r < 4 \<and> a div 4 = q \<and> a mod 4 = r"
  by (rule exI [of _ "a div 4"], rule exI [of _ "a mod 4"]) simp

lemma split16: "\<exists>q r. (a::nat) = q * 16 + r \<and> r < 16 \<and> a div 16 = q \<and> a mod 16 = r"
  by (rule exI [of _ "a div 16"], rule exI [of _ "a mod 16"]) simp

lemma split64: "\<exists>q r. (a::nat) = q * 64 + r \<and> r < 64 \<and> a div 64 = q \<and> a mod 64 = r"
  by (rule exI [of _ "a div 64"], rule exI [of _ "a mod 64"]) simp

lemma join4_chunk3:
  "join4 (a div 4) ((a mod 4) * 16 + b div 16) ((b mod 16) * 4 + c div 64) (c mod 64)
     = (a * 256 + b) * 256 + c"
proof -
  obtain a1 a0 where a: "a = a1 * 4 + a0" "a div 4 = a1" "a mod 4 = a0" using split4 by blast
  obtain b1 b0 where b: "b = b1 * 16 + b0" "b div 16 = b1" "b mod 16 = b0" using split16 by blast
  obtain c1 c0 where c: "c = c1 * 64 + c0" "c div 64 = c1" "c mod 64 = c0" using split64 by blast
  show ?thesis unfolding a(2,3) b(2,3) c(2,3) join4_def unfolding a(1) b(1) c(1)
    by (simp add: algebra_simps)
qed

lemma bytes3_pack:
  assumes "b < 256" "c < 256"
  shows "bytes3 ((a * 256 + b) * 256 + c) = [a, b, c]"
proof -
  let ?n = "(a * 256 + b) * 256 + c"
  have m: "?n mod 256 = c"
    using assms(2) by (simp only: mod_mult_self3 mod_less)
  have d: "?n div 256 = a * 256 + b"
    using assms(2) by (simp only: div_mult_self3 div_less add_0_right zero_neq_numeral not_False_eq_True)
  have dm: "?n div 256 mod 256 = b"
    unfolding d using assms(1) by (simp only: mod_mult_self3 mod_less)
  have "?n div 65536 = ?n div 256 div 256"
    by (simp only: div_mult2_eq [symmetric]) simp
  also have "\<dots> = a"
    unfolding d using assms(1) by (simp only: div_mult_self3 div_less add_0_right zero_neq_numeral not_False_eq_True)
  finally have dd: "?n div 65536 = a" .
  show ?thesis unfolding bytes3_def by (simp only: m dm dd)
qed

lemma join4_chunk2:
  "join4 0 (a div 4) ((a mod 4) * 16 + b div 16) ((b mod 16) * 4) div 4 = a * 256 + b"
proof -
  obtain a1 a0 where a: "a = a1 * 4 + a0" "a div 4 = a1" "a mod 4 = a0" using split4 by blast
  obtain b1 b0 where b: "b = b1 * 16 + b0" "b div 16 = b1" "b mod 16 = b0" using split16 by blast
  have "join4 0 a1 (a0 * 16 + b1) (b0 * 4) = ((a1 * 4 + a0) * 256 + (b1 * 16 + b0)) * 4"
    by (simp add: join4_def algebra_simps)
  then show ?thesis unfolding a(2,3) b(2,3) unfolding a(1) b(1) by simp
qed

lemma bytes2_pack:
  assumes "b < 256"
  shows "bytes2 (a * 256 + b) = [a, b]"
proof -
  have m: "(a * 256 + b) mod 256 = b"
    using assms by (simp only: mod_mult_self3 mod_less)
  have d: "(a * 256 + b) div 256 = a"
    using assms by (simp only: div_mult_self3 div_less add_0_right zero_neq_numeral not_False_eq_True)
  show ?thesis unfolding bytes2_def by (simp only: m d)
qed

lemma join4_chunk1: "join4 0 0 (a div 4) ((a mod 4) * 16) div 16 = a"
proof -
  obtain a1 a0 where a: "a = a1 * 4 + a0" "a div 4 = a1" "a mod 4 = a0" using split4 by blast
  have "join4 0 0 a1 (a0 * 16) = (a1 * 4 + a0) * 16" by (simp add: join4_def)
  then show ?thesis unfolding a(2,3) unfolding a(1) by simp
qed

lemma decode_sextets_of: "\<forall>x\<in>set bs. x < 256 \<Longrightarrow> decode_sextets (sextets_of bs) = bs"
proof (induction bs rule: sextets_of.induct)
  case (1 a b c r)
  then have ab: "b < 256" "c < 256" by simp_all
  from 1 have "decode_sextets (sextets_of r) = r" by simp
  then show ?case
    by (simp only: sextets_of.simps append_Cons append_Nil decode_sextets.simps
          join4_chunk3 bytes3_pack [OF ab])
next
  case (2 a b)
  then have ab: "b < 256" by simp
  show ?case
    by (simp only: sextets_of.simps decode_sextets.simps join4_chunk2 bytes2_pack [OF ab])
next
  case (3 a)
  show ?case
    by (simp only: sextets_of.simps decode_sextets.simps join4_chunk1)
next
  case 4
  then show ?case by simp
qed

lemma sextets_of_bound: "\<forall>x\<in>set bs. x < 256 \<Longrightarrow> \<forall>v\<in>set (sextets_of bs). v < 64"
proof (induction bs rule: sextets_of.induct)
  case (1 a b c r)
  then have "a < 256" "b < 256" "c < 256" "\<forall>v\<in>set (sextets_of r). v < 64" by simp_all
  moreover have "a div 4 < 64" using \<open>a < 256\<close> by simp
  moreover have "a mod 4 * 16 + b div 16 < 64"
  proof -
    have "a mod 4 \<le> 3" "b div 16 \<le> 15" using \<open>b < 256\<close> by simp_all
    then show ?thesis by linarith
  qed
  moreover have "b mod 16 * 4 + c div 64 < 64"
  proof -
    have "b mod 16 \<le> 15" "c div 64 \<le> 3" using \<open>c < 256\<close> by simp_all
    then show ?thesis by linarith
  qed
  ultimately show ?case by simp
next
  case (2 a b)
  then have "a < 256" "b < 256" by simp_all
  moreover have "a div 4 < 64" using \<open>a < 256\<close> by simp
  moreover have "a mod 4 * 16 + b div 16 < 64"
  proof -
    have "a mod 4 \<le> 3" "b div 16 \<le> 15" using \<open>b < 256\<close> by simp_all
    then show ?thesis by linarith
  qed
  moreover have "b mod 16 * 4 < 64"
  proof -
    have "b mod 16 \<le> 15" by simp
    then show ?thesis by linarith
  qed
  ultimately show ?case by simp
next
  case (3 a)
  then have "a < 256" by simp
  moreover have "a div 4 < 64" using \<open>a < 256\<close> by simp
  moreover have "a mod 4 * 16 < 64"
  proof -
    have "a mod 4 \<le> 3" by simp
    then show ?thesis by linarith
  qed
  ultimately show ?case by simp
next
  case 4
  then show ?case by simp
qed

lemma length_sextets_of: "length (sextets_of bs) = (4 * length bs + 2) div 3"
  by (induction bs rule: sextets_of.induct) simp_all

lemma b64val_b64char: "n < 64 \<Longrightarrow> b64val (b64char n) = Some n"
  unfolding b64val_def b64char_def Let_def
  by simp linarith

lemma b64val_space: "js_space c \<Longrightarrow> b64val c = None"
  unfolding b64val_def js_space_def Let_def by auto

lemma b64val_ascii_whitespace: "ascii_whitespace c \<Longrightarrow> b64val c = None"
  unfolding b64val_def ascii_whitespace_def Let_def by auto

lemma b64val_punct:
  "b64val CHR ''='' = None" "b64val CHR '','' = None" "b64val CHR '':'' = None"
  by (simp_all add: b64val_def)

lemma b64char_props:
  assumes "n < 64"
  shows "\<not> js_space (b64char n)" "\<not> ascii_whitespace (b64char n)"
    "b64char n \<noteq> CHR ''=''" "b64char n \<noteq> CHR '',''" "b64char n \<noteq> CHR '':''"
  using b64val_b64char [OF assms] b64val_space b64val_ascii_whitespace b64val_punct
  by fastforce+

lemma sextets_map_b64char: "\<forall>v\<in>set vs. v < 64 \<Longrightarrow> sextets (map b64char vs) = Some vs"
  by (induction vs) (simp_all add: b64val_b64char)

lemma strip_padding_encoded:
  assumes "\<forall>v\<in>set vs. v < 64" "(length vs + k) mod 4 = 0" "k \<le> 2"
  shows "strip_padding (map b64char vs @ replicate k CHR ''='') = map b64char vs"
proof -
  have last_ne: "vs \<noteq> [] \<Longrightarrow> b64char (last vs) \<noteq> CHR ''=''"
    using assms(1) by (simp add: b64char_props(3))
  consider "k = 0" | "k = 1" | "k = 2" using assms(3) by linarith
  then show ?thesis
  proof cases
    case 1
    show ?thesis
    proof (cases vs rule: rev_cases)
      case Nil
      then show ?thesis using 1 by (simp add: strip_padding_def)
    next
      case (snoc ws v)
      then have "b64char v \<noteq> CHR ''=''" using last_ne by simp
      then show ?thesis using 1 snoc by (simp add: strip_padding_def split: list.splits)
    qed
  next
    case 2
    then have "vs \<noteq> []" using assms(2) by auto
    then obtain ws v where vs: "vs = ws @ [v]" by (meson rev_exhaust)
    then have "b64char v \<noteq> CHR ''=''" using last_ne by simp
    then show ?thesis using 2 vs assms(2) by (simp add: strip_padding_def)
  next
    case 3
    then show ?thesis using assms(2) by (simp add: strip_padding_def numeral_2_eq_2)
  qed
qed

lemma encode_padding:
  "(length (sextets_of ns) + (3 - length ns mod 3) mod 3) mod 4 = 0"
  "(3 - length ns mod 3) mod 3 \<le> 2"
  "length (sextets_of ns) mod 4 \<noteq> 1"
proof -
  obtain q r where n: "length ns = 3 * q + r" "r < 3"
    by (metis mod_less_divisor mult_div_mod_eq zero_less_numeral)
  have m: "(4 * q) mod 4 = 0" "(4 * q + 2) mod 4 = 2" "(4 * q + 3) mod 4 = 3"
    "(4 * q + 2 + 2) mod 4 = 0" "(4 * q + 3 + 1) mod 4 = 0"
    by presburger+
  have lm: "length ns mod 3 = r" unfolding n(1) using n(2) by simp
  from n consider "r = 0" | "r = 1" | "r = 2" by linarith
  then have "(length (sextets_of ns) + (3 - length ns mod 3) mod 3) mod 4 = 0
     \<and> length (sextets_of ns) mod 4 \<noteq> 1"
  proof cases
    case 1
    then have l: "length (sextets_of ns) = 4 * q" using n by (simp add: length_sextets_of)
    have k: "(3 - length ns mod 3) mod 3 = 0" unfolding lm 1 by simp
    show ?thesis unfolding l k using m by simp
  next
    case 2
    then have l: "length (sextets_of ns) = 4 * q + 2" using n by (simp add: length_sextets_of)
    have k: "(3 - length ns mod 3) mod 3 = 2" unfolding lm 2 by simp
    show ?thesis unfolding l k using m by simp
  next
    case 3
    then have l: "length (sextets_of ns) = 4 * q + 3" using n by (simp add: length_sextets_of)
    have k: "(3 - length ns mod 3) mod 3 = 1" unfolding lm 3 by simp
    show ?thesis unfolding l k using m by simp
  qed
  then show "(length (sextets_of ns) + (3 - length ns mod 3) mod 3) mod 4 = 0"
    "length (sextets_of ns) mod 4 \<noteq> 1" by simp_all
  have "(3 - length ns mod 3) mod 3 < 3" by (rule mod_less_divisor) simp
  then show "(3 - length ns mod 3) mod 3 \<le> 2" by linarith
qed

lemma unat_bytes_bound: "\<forall>x\<in>set (map unat (bs :: byte list)). x < 256"
proof
  fix x assume "x \<in> set (map unat bs)"
  then obtain b :: byte where "x = unat b" by auto
  moreover have "unat b < 2 ^ 8" using unsigned_less [of b] by simp
  ultimately show "x < 256" by simp
qed

lemma encoded_chars:
  assumes "c \<in> set (base64_encode bs)"
  shows "\<not> js_space c \<and> \<not> ascii_whitespace c \<and> c \<noteq> CHR '','' \<and> c \<noteq> CHR '':''"
proof -
  have bound: "\<forall>v\<in>set (sextets_of (map unat bs)). v < 64"
    by (rule sextets_of_bound [OF unat_bytes_bound])
  from assms consider v where "v \<in> set (sextets_of (map unat bs))" "c = b64char v"
    | "c = CHR ''=''"
    by (auto simp: base64_encode_def)
  then show ?thesis
  proof cases
    case 1
    then have "v < 64" using bound by simp
    then show ?thesis using 1(2) by (simp add: b64char_props)
  next
    case 2
    then show ?thesis by (simp add: js_space_def ascii_whitespace_def)
  qed
qed

lemma bytes_of_chars: "map (\<lambda>ch. of_nat (of_char ch)) (map char_of (map unat bs)) = (bs :: byte list)"
proof -
  have "of_nat (of_char (char_of (unat b) :: char)) = b" for b :: byte
  proof -
    have "unat b < 2 ^ 8" using unsigned_less [of b] by simp
    then have "unat b mod 256 = unat b" by simp
    then show ?thesis by simp
  qed
  then show ?thesis by (simp add: comp_def)
qed

lemma atob_encode: "atob (base64_encode bs) = Inr (map char_of (map unat bs))"
proof -
  let ?vs = "sextets_of (map unat bs)"
  let ?k = "(3 - length bs mod 3) mod 3"
  have bound: "\<forall>v\<in>set ?vs. v < 64"
    by (rule sextets_of_bound [OF unat_bytes_bound])
  have nows: "filter (\<lambda>c. \<not> ascii_whitespace c) (base64_encode bs) = base64_encode bs"
    using encoded_chars by (simp add: filter_id_conv)
  have pad: "(length ?vs + ?k) mod 4 = 0" "?k \<le> 2" "length ?vs mod 4 \<noteq> 1"
    using encode_padding [of "map unat bs"] by simp_all
  have strip: "strip_padding (base64_encode bs) = map b64char ?vs"
    unfolding base64_encode_def using bound pad(1,2) by (rule strip_padding_encoded)
  have dec: "decode_sextets ?vs = map unat bs"
    by (rule decode_sextets_of [OF unat_bytes_bound])
  show ?thesis
    unfolding atob_def nows strip Let_def
    using pad(3) by (simp add: sextets_map_b64char [OF bound] dec)
qed

lemma filter_not_dropWhile: "filter (\<lambda>c. \<not> P c) (dropWhile P xs) = filter (\<lambda>c. \<not> P c) xs"
  by (induction xs) simp_all

lemma filter_trim: "filter (\<lambda>c. \<not> js_space c) (trim w) = filter (\<lambda>c. \<not> js_space c) w"
proof -
  have "filter (\<lambda>c. \<not> js_space c) (trim w)
      = rev (filter (\<lambda>c. \<not> js_space c) (dropWhile js_space (rev (dropWhile js_space w))))"
    by (simp add: trim_def rev_filter)
  also have "\<dots> = rev (filter (\<lambda>c. \<not> js_space c) (rev (dropWhile js_space w)))"
    by (simp only: filter_not_dropWhile)
  also have "\<dots> = filter (\<lambda>c. \<not> js_space c) (dropWhile js_space w)"
    by (simp add: rev_filter [symmetric])
  also have "\<dots> = filter (\<lambda>c. \<not> js_space c) w"
    by (simp only: filter_not_dropWhile)
  finally show ?thesis .
qed

lemma set_trim: "set (trim w) \<subseteq> set w"
proof -
  have "set (dropWhile js_space (rev (dropWhile js_space w))) \<subseteq> set (rev (dropWhile js_space w))"
    by (rule set_dropWhileD [THEN subsetI])
  also have "\<dots> \<subseteq> set w" using set_dropWhileD by fastforce
  finally show ?thesis by (simp add: trim_def)
qed

lemma indexOf_None: "c \<notin> set s \<Longrightarrow> indexOf s c = None"
  by (induction s) auto

lemma indexOf_first: "c \<notin> set pre \<Longrightarrow> indexOf (pre @ c # rest) c = Some (length pre)"
  by (induction pre) auto

lemma trim_prefixed:
  assumes "\<not> js_space x" "\<not> js_space y"
  shows "trim (x # pre @ y # w) = x # pre @ y # rev (dropWhile js_space (rev w))"
proof -
  have "dropWhile js_space (rev w @ y # (rev pre @ [x])) = dropWhile js_space (rev w) @ y # (rev pre @ [x])"
    using assms(2) by (rule dropWhile_append3)
  then show ?thesis using assms(1) by (simp add: trim_def)
qed

lemma decode_encoded:
  "(case atob (base64_encode bs) of Inl e \<Rightarrow> Inl e
    | Inr binary \<Rightarrow> Inr (map (\<lambda>ch. of_nat (of_char ch)) binary)) = (Inr bs :: exn + byte list)"
  by (simp only: atob_encode sum.case bytes_of_chars)

lemma decode_spaced:
  assumes "filter (\<lambda>c. \<not> js_space c) w = base64_encode bs"
  shows "dataUriToBytes w = Inr bs"
proof -
  have "CHR '','' \<notin> set (trim w)"
  proof
    assume "CHR '','' \<in> set (trim w)"
    then have "CHR '','' \<in> set w" using set_trim by blast
    moreover have "\<not> js_space CHR '',''" by (simp add: js_space_def)
    ultimately have "CHR '','' \<in> set (filter (\<lambda>c. \<not> js_space c) w)" by simp
    then show False using encoded_chars assms by force
  qed
  then have ix: "indexOf (trim w) CHR '','' = None" by (rule indexOf_None)
  show ?thesis
    unfolding dataUriToBytes_def Let_def ix
    by (simp only: option.case filter_trim assms decode_encoded)
qed

lemma drop_past: "drop (length pre + 1) (pre @ c # rest) = rest"
  by simp

lemma decode_prefixed:
  assumes "filter (\<lambda>c. \<not> js_space c) w = base64_encode bs" "CHR '','' \<notin> set p"
  shows "dataUriToBytes (''data:'' @ p @ '','' @ w) = Inr bs"
proof -
  let ?w' = "rev (dropWhile js_space (rev w))"
  let ?s = "''data:'' @ p @ '','' @ ?w'"
  have tr: "trim (''data:'' @ p @ '','' @ w) = ?s"
    using trim_prefixed [of "CHR ''d''" "CHR '',''" "''ata:'' @ p" w]
    by (simp add: js_space_def)
  have ix: "indexOf ?s CHR '','' = Some (5 + length p)"
    using indexOf_first [of "CHR '',''" "''data:'' @ p" ?w'] assms(2) by simp
  have dr: "drop (5 + length p + 1) ?s = ?w'"
  proof -
    have "drop (length (''data:'' @ p) + 1) ((''data:'' @ p) @ CHR '','' # ?w') = ?w'"
      by (rule drop_past)
    moreover have "length (''data:'' @ p) + 1 = 5 + length p + 1" by simp
    moreover have "(''data:'' @ p) @ CHR '','' # ?w' = ?s" by simp
    ultimately show ?thesis by metis
  qed
  have sw: "startsWith ?s ''data:''" by (simp add: startsWith_def)
  have fl: "filter (\<lambda>c. \<not> js_space c) ?w' = base64_encode bs"
    by (simp add: rev_filter [symmetric] filter_not_dropWhile rev_filter assms(1))
  show ?thesis
    unfolding dataUriToBytes_def tr Let_def ix
    by (simp only: option.case sw if_True dr fl decode_encoded)
qed

text \<open>C8. Decoding the base64 encoding of a byte sequence with \<open>dataUriToBytes\<close> gives the
  sequence back: for the bare encoding, for the form \<open>data:<prefix>,<encoding>\<close> whose
  prefix has no comma, and for both when white space is interspersed in the payload
  (any text whose non-space characters spell the encoding).\<close>

theorem base64_round_trip:
  "dataUriToBytes (base64_encode b) = Inr b
   \<and> (CHR '','' \<notin> set p \<longrightarrow> dataUriToBytes (''data:'' @ p @ '','' @ base64_encode b) = Inr b)
   \<and> (filter (\<lambda>c. \<not> js_space c) w = base64_encode b \<longrightarrow>
        dataUriToBytes w = Inr b
        \<and> (CHR '','' \<notin> set p \<longrightarrow> dataUriToBytes (''data:'' @ p @ '','' @ w) = Inr b))"
proof -
  have id: "filter (\<lambda>c. \<not> js_space c) (base64_encode b) = base64_encode b"
    using encoded_chars by (simp add: filter_id_conv)
  show ?thesis
    using decode_spaced [OF id] decode_prefixed [OF id] decode_spaced decode_prefixed
    by blast
qed

lemma replicate_two: "replicate 2 c = [c, c]"
  by (simp add: numeral_2_eq_2)

lemma encode_pdf: "base64_encode [37, 80, 68, 70] = ''JVBERg==''"
  by (simp add: base64_encode_def b64char_def char_of_def bit_Suc_0_iff replicate_two)

theorem base64_round_trip_witness:
  "base64_encode [37, 80, 68, 70] = ''JVBERg==''
   \<and> dataUriToBytes ''JVBERg=='' = Inr [37, 80, 68, 70]
   \<and> CHR '','' \<notin> set ''application/pdf;base64''
   \<and> dataUriToBytes ''data:application/pdf;base64,JVBERg=='' = Inr [37, 80, 68, 70]
   \<and> filter (\<lambda>c. \<not> js_space c) spaced_payload = ''JVBERg==''
   \<and> dataUriToBytes spaced_payload = Inr [37, 80, 68, 70]
   \<and> dataUriToBytes (''data:application/pdf;base64,'' @ spaced_payload) = Inr [37, 80, 68, 70]"
proof -
  have f: "filter (\<lambda>c. \<not> js_space c) spaced_payload = ''JVBERg==''"
    by (simp add: spaced_payload_def js_space_def)
  show ?thesis
    using base64_round_trip [of "[37, 80, 68, 70]" "''application/pdf;base64''" spaced_payload]
    by (simp add: encode_pdf f)
qed

subsection \<open>Scale bounds\<close>

lemma loadFromDataUri_bounds [simp]:
  "minZoom (fst (loadFromDataUri u st)) = minZoom st"
  "maxZoom (fst (loadFromDataUri u st)) = maxZoom st"
  by (simp_all add: loadFromDataUri_def Let_def loadCatch_def finallyBlock_def setError_def
        setLoading_def clearError_def clearDocument_def newPages_def split: sum.splits)

lemma onResize_bounds [simp]:
  "minZoom (fst (onResize st)) = minZoom st"
  "maxZoom (fst (onResize st)) = maxZoom st"
  by (simp_all add: onResize_def Let_def setScale_scale)






lemma bounds_update_fields [simp]:
  "thePages (st\<lparr>minZoom := a, maxZoom := b, zoomStep := c\<rparr>) = thePages st"
  by (simp add: thePages_def)




subsection \<open>Rounding to binary64\<close>












subsection \<open>Scroll anchor across a scale change\<close>











lemma ratio_renderToken [simp]:
  "ratioTop (st\<lparr>renderToken := t\<rparr>) = ratioTop st"
  "ratioLeft (st\<lparr>renderToken := t\<rparr>) = ratioLeft st"
  by (simp_all add: ratioTop_def ratioLeft_def)





subsection \<open>Generation token\<close>

lemma pdf_uri_b_facts:
  "trim pdf_uri_b = pdf_uri_b" "20 \<le> length pdf_uri_b"
  "dataUriToBytes pdf_uri_b = Inr [37, 80, 68, 70, 45, 50]"
  "signature_of [37, 80, 68, 70, 45, 50] = ''%PDF''"
  by (simp_all add: pdf_uri_b_def decode_eval signature_of_def byteAt_def
        char_of_def bit_Suc_0_iff)

lemma uris_differ: "pdf_uri_a \<noteq> pdf_uri_b" "pdf_uri_b \<noteq> pdf_uri_a" "pdf_uri_a \<noteq> []" "pdf_uri_b \<noteq> []"
  by (simp_all add: pdf_uri_a_def pdf_uri_b_def)

lemma load_a: "loadFromDataUri pdf_uri_a st =
    (setLoading True (clearError (st\<lparr>renderToken := renderToken st + 1\<rparr>)),
     [AwaitGetDocument (renderToken st + 1) [37, 80, 68, 70, 45, 49]])"
  by (rule load_ok) (simp_all add: pdf_uri_a_facts)

lemma load_b: "loadFromDataUri pdf_uri_b st =
    (setLoading True (clearError (st\<lparr>renderToken := renderToken st + 1\<rparr>)),
     [AwaitGetDocument (renderToken st + 1) [37, 80, 68, 70, 45, 50]])"
  by (rule load_ok) (simp_all add: pdf_uri_b_facts)

lemmas trace_eval = run_def start_def spawn_def updateView_def cfg_of_def orElse_def
  pdf_uri_a_facts pdf_uri_b_facts uris_differ load_a load_b clampNumber_def
  setLoading_def clearError_def initial_def newPages_def loadPages_def
  renderAllPages_def continueRender_def renderPageToCanvas_def getViewport_def afterRender_def
  finallyBlock_def computeFitWidthScale_def thePages_def updateNavUi_def updateZoomUi_def
  getCurrentPageIndex_def viewMid_def doc_A_def doc_B_def page_A1_def page_B1_def
  new_canvas_def Let_def visiblePages_def

lemma stale_getPage_pushes:
  assumes "token \<noteq> renderToken st"
  shows "thePages (fst (resume (AwaitGetPage token d i n) Resolved st))
           = thePages st @ [doc_pages d ! (i - 1)]"
proof -
  have "renderLoop token ps j s = (s, None)" if "token \<noteq> renderToken s" for ps j s
    using that by (cases ps) simp_all
  then show ?thesis
    using assms
    by (simp add: Let_def loadPages_def finallyBlock_def thePages_def renderAllPages_def
          continueRender_def afterRender_def)
qed

text \<open>C1 fails on the code: \<open>loadFromDataUri\<close> tests the token before
  \<open>await doc.getPage(i)\<close> but not after it. When the first load resumes with its page, the
  token is 2 while the load holds 1, and it still pushes the page onto \<open>this.pages\<close>, by
  then the array of the second load. The second load renders what the array holds: at
  the end no task is pending, the document is the second one, and the page container
  shows a page of the first document followed by a page of the second.\<close>

theorem stale_load_mixes_documents:
  "renderToken (ctl (run start (take 6 two_loads))) = 2
   \<and> pending (run start (take 6 two_loads))
       = [AwaitGetPage 1 doc_A 1 1, AwaitGetPage 2 doc_B 1 1]
   \<and> thePages (ctl (run start (take 6 two_loads))) = []
   \<and> thePages (ctl (run start (take 7 two_loads))) = [page_A1]
   \<and> pending (run start two_loads) = []
   \<and> renderToken (ctl (run start two_loads)) = 2
   \<and> doc (ctl (run start two_loads)) = Some doc_B
   \<and> thePages (ctl (run start two_loads)) = [page_A1, page_B1]
   \<and> map (map_option (\<lambda>r. page_doc (fst r))) (visiblePages (ctl (run start two_loads)))
       = [Some 1, Some 2]
   \<and> pageLabel (ctl (run start two_loads)) = ''1 / 2''
   \<and> \<not> overlay_shown (ctl (run start two_loads))"
  by (simp add: two_loads_def trace_eval show_nat.simps digit_char_def char_of_def bit_Suc_0_iff
        show_int_def js_round_def)

end
